theory Spec2Isabelle
  imports Complex_Main "HOL-Library.AList" "HOL-Library.Multiset"
begin

section \<open>JavaScript values as the network monitor uses them\<close>

text \<open>
  A JavaScript string is modelled as the list of its UTF-16 code units, restricted to
  code units below 256 (Isabelle's \<open>char\<close>): \<open>length\<close> is the string's
  \<open>.length\<close>, \<open>take n\<close> is \<open>.slice(0, n)\<close> for \<open>0 \<le> n\<close>.
  Numbers that the code treats as counts or instants (byte counts, timestamps, status
  codes, object counters) are mathematical integers; the model is exact while they stay
  inside JavaScript's safe-integer range.

  A property that may be absent is an \<open>option\<close> (\<open>None\<close> is \<open>undefined\<close>);
  a property that may hold \<open>null\<close> is a \<open>nullable\<close>. Objects whose identity the
  code relies on (records, header and timing objects, trackers, stores) live in heaps
  and are referred to by address.
\<close>

datatype 'a nullable = Null | Val 'a

text \<open>\<open>Buffer.byteLength(s)\<close>: the length of the UTF-8 encoding. A code unit below
  128 takes one byte, one from 128 to 255 takes two.\<close>

definition byteLength :: "string \<Rightarrow> nat" where
  "byteLength s = sum_list (map (\<lambda>c. if (of_char c :: nat) < 128 then 1 else 2) s)"

text \<open>\<open>String(n)\<close> for a natural number: its decimal digits.\<close>

definition digitChar :: "nat \<Rightarrow> char" where
  "digitChar d = char_of (48 + d)"

function showNat :: "nat \<Rightarrow> string" where
  "showNat n = (if n < 10 then [digitChar n] else showNat (n div 10) @ [digitChar (n mod 10)])"
  by pat_completeness auto
termination
  by (relation "measure id") auto

text \<open>\<open>s.slice(0, n)\<close>: a negative \<open>n\<close> counts from the end of the string.\<close>

definition slice0 :: "string \<Rightarrow> int \<Rightarrow> string" where
  "slice0 s n = (if n < 0 then take (length s - nat (- n)) s else take (nat n) s)"

subsection \<open>Heaps\<close>

type_synonym addr = nat

record 'a heap =
  cells :: "addr \<Rightarrow> 'a option"
  brk :: addr

definition emptyHeap :: "'a heap" where
  "emptyHeap = \<lparr>cells = (\<lambda>_. None), brk = 0\<rparr>"

text \<open>A new object gets the next unused address.\<close>

definition alloc :: "'a \<Rightarrow> 'a heap \<Rightarrow> addr \<times> 'a heap" where
  "alloc v h = (brk h, h\<lparr>cells := (cells h)(brk h \<mapsto> v), brk := Suc (brk h)\<rparr>)"

definition store :: "addr \<Rightarrow> 'a \<Rightarrow> 'a heap \<Rightarrow> 'a heap" where
  "store a v h = h\<lparr>cells := (cells h)(a \<mapsto> v)\<rparr>"

subsection \<open>Plain objects: header maps and timing structures\<close>

datatype prim = PNull | PNum real | PStr string

type_synonym plain_object = "(string \<times> prim) list"

section \<open>Traffic records\<close>

text \<open>
  The properties a traffic record, the \<open>data\<close> argument of \<open>saveRequest\<close> and the
  \<open>patch\<close> argument of \<open>updateRequest\<close> may carry, with the kinds of value the
  tracker writes to them. A property is absent or holds a value of its kind; an object
  with an own property that holds \<open>undefined\<close> is not modelled. The four byte counts
  are numbers or absent (\<open>typeof x !== "number"\<close> is \<open>x = None\<close>).
\<close>

record props =
  pageId :: "string option"
  pageUrl :: "string option"
  pageTitle :: "string option"
  url :: "string option"
  method' :: "string option"
  resourceType :: "string option"
  isNavigationRequest :: "bool option"
  frameUrl :: "string nullable option"
  requestHeaders :: "addr nullable option"
  requestBody :: "string nullable option"
  requestBodyTruncated :: "bool option"
  status :: "int nullable option"
  statusText :: "string nullable option"
  responseHeaders :: "addr nullable option"
  responseBody :: "string nullable option"
  responseBodyTruncated :: "bool option"
  responseBodyError :: "string nullable option"
  timing :: "addr nullable option"
  error' :: "string nullable option"
  contentType :: "string nullable option"
  durationMs :: "real nullable option"
  requestBodyBytes :: "int option"
  requestBodySize :: "int option"
  responseBodyBytes :: "int option"
  responseBodySize :: "int option"

text \<open>An argument object may also carry \<open>id\<close> and \<open>timestamp\<close>.\<close>

record data = props +
  d_id :: "string option"
  d_timestamp :: "int option"

text \<open>A stored record always has both.\<close>

record entry = props +
  id' :: string
  timestamp :: int

definition noProps :: props where
  "noProps = \<lparr>pageId = None, pageUrl = None, pageTitle = None, url = None, method' = None,
     resourceType = None, isNavigationRequest = None, frameUrl = None, requestHeaders = None,
     requestBody = None, requestBodyTruncated = None, status = None, statusText = None,
     responseHeaders = None, responseBody = None, responseBodyTruncated = None,
     responseBodyError = None, timing = None, error' = None, contentType = None,
     durationMs = None, requestBodyBytes = None, requestBodySize = None,
     responseBodyBytes = None, responseBodySize = None\<rparr>"

definition noData :: data where
  "noData = props.extend noProps (data.fields None None)"

text \<open>Property by property, the second object's own properties win (\<open>{...a, ...b}\<close> and
  \<open>Object.assign(a, b)\<close> on the properties of \<open>props\<close>).\<close>

definition orElse :: "'a option \<Rightarrow> 'a option \<Rightarrow> 'a option" where
  "orElse new old = (case new of None \<Rightarrow> old | Some v \<Rightarrow> Some v)"

definition assignProps :: "'a props_scheme \<Rightarrow> 'b props_scheme \<Rightarrow> 'a props_scheme" where
  "assignProps a b = a\<lparr>
     pageId := orElse (pageId b) (pageId a),
     pageUrl := orElse (pageUrl b) (pageUrl a),
     pageTitle := orElse (pageTitle b) (pageTitle a),
     url := orElse (url b) (url a),
     method' := orElse (method' b) (method' a),
     resourceType := orElse (resourceType b) (resourceType a),
     isNavigationRequest := orElse (isNavigationRequest b) (isNavigationRequest a),
     frameUrl := orElse (frameUrl b) (frameUrl a),
     requestHeaders := orElse (requestHeaders b) (requestHeaders a),
     requestBody := orElse (requestBody b) (requestBody a),
     requestBodyTruncated := orElse (requestBodyTruncated b) (requestBodyTruncated a),
     status := orElse (status b) (status a),
     statusText := orElse (statusText b) (statusText a),
     responseHeaders := orElse (responseHeaders b) (responseHeaders a),
     responseBody := orElse (responseBody b) (responseBody a),
     responseBodyTruncated := orElse (responseBodyTruncated b) (responseBodyTruncated a),
     responseBodyError := orElse (responseBodyError b) (responseBodyError a),
     timing := orElse (timing b) (timing a),
     error' := orElse (error' b) (error' a),
     contentType := orElse (contentType b) (contentType a),
     durationMs := orElse (durationMs b) (durationMs a),
     requestBodyBytes := orElse (requestBodyBytes b) (requestBodyBytes a),
     requestBodySize := orElse (requestBodySize b) (requestBodySize a),
     responseBodyBytes := orElse (responseBodyBytes b) (responseBodyBytes a),
     responseBodySize := orElse (responseBodySize b) (responseBodySize a)\<rparr>"

text \<open>\<open>{ id: requestId, timestamp: now, ...data }\<close>\<close>

definition spreadRecord :: "string \<Rightarrow> int \<Rightarrow> data \<Rightarrow> entry" where
  "spreadRecord requestId now d =
     props.extend (props.truncate d)
       (entry.fields (case d_id d of None \<Rightarrow> requestId | Some i \<Rightarrow> i)
                     (case d_timestamp d of None \<Rightarrow> now | Some t \<Rightarrow> t))"

text \<open>\<open>Object.assign(existing, patch)\<close>\<close>

definition Object_assign :: "entry \<Rightarrow> data \<Rightarrow> entry" where
  "Object_assign existing patch =
     (assignProps existing patch)\<lparr>
        id' := (case d_id patch of None \<Rightarrow> id' existing | Some i \<Rightarrow> i),
        timestamp := (case d_timestamp patch of None \<Rightarrow> timestamp existing | Some t \<Rightarrow> t)\<rparr>"

text \<open>\<open>body ? Buffer.byteLength(body) : 0\<close>: \<open>undefined\<close>, \<open>null\<close> and the empty
  string are falsy.\<close>

definition bodyBytes :: "string nullable option \<Rightarrow> int" where
  "bodyBytes b = (case b of Some (Val s) \<Rightarrow> (if s = [] then 0 else int (byteLength s)) | _ \<Rightarrow> 0)"

section \<open>The request store (class RequestStorage)\<close>

text \<open>
  \<open>requests\<close> is the \<open>Map\<close> from request identifier to record, in insertion order;
  it holds references to record objects. \<open>AList.update\<close> is \<open>Map.set\<close>: a new key
  goes to the end, an existing key keeps its place.
\<close>

record storage =
  requests :: "(string \<times> addr) list"
  requestCounter :: nat
  activePageMonitors :: "(string \<times> string) list"

text \<open>The memory the store's records live in: record objects, the plain objects they
  refer to, and the identifier the tracker attaches to a request object
  (\<open>request[requestIdSymbol]\<close>, by the request object's identity).\<close>

record mem =
  records :: "entry heap"
  objects :: "plain_object heap"
  requestIdSymbol :: "nat \<Rightarrow> string option"

definition emptyMem :: mem where
  "emptyMem = \<lparr>records = emptyHeap, objects = emptyHeap, requestIdSymbol = (\<lambda>_. None)\<rparr>"

definition newStorage :: storage where
  "newStorage = \<lparr>requests = [], requestCounter = 0, activePageMonitors = []\<rparr>"

text \<open>The four \<open>typeof ... !== "number"\<close> statements of \<open>saveRequest\<close>, in order.\<close>

definition deriveByteFields :: "entry \<Rightarrow> entry" where
  "deriveByteFields r0 =
    (let r1 = (if requestBodyBytes r0 = None
               then r0\<lparr>requestBodyBytes := Some (bodyBytes (requestBody r0))\<rparr> else r0);
         r2 = (if requestBodySize r1 = None
               then r1\<lparr>requestBodySize := requestBodyBytes r1\<rparr> else r1);
         r3 = (if responseBodyBytes r2 = None
               then r2\<lparr>responseBodyBytes := Some (bodyBytes (responseBody r2))\<rparr> else r2);
         r4 = (if responseBodySize r3 = None
               then r3\<lparr>responseBodySize := responseBodyBytes r3\<rparr> else r3)
     in r4)"

definition nextRequestId :: "storage \<Rightarrow> string" where
  "nextRequestId st = ''req-'' @ showNat (Suc (requestCounter st))"

text \<open>\<open>saveRequest(data)\<close>; \<open>now\<close> is what \<open>Date.now()\<close> returns. The result is the
  reference to the stored record.\<close>

definition saveRequest :: "int \<Rightarrow> data \<Rightarrow> storage \<Rightarrow> mem \<Rightarrow> addr \<times> storage \<times> mem" where
  "saveRequest now d st m =
    (let requestId = nextRequestId st;
         record = deriveByteFields (spreadRecord requestId now d);
         (a, h) = alloc record (records m)
     in (a,
         st\<lparr>requests := AList.update requestId a (requests st),
            requestCounter := Suc (requestCounter st)\<rparr>,
         m\<lparr>records := h\<rparr>))"

text \<open>The four conditional statements of \<open>updateRequest\<close> after \<open>Object.assign\<close>, in
  order.\<close>

definition deriveAfterPatch :: "data \<Rightarrow> entry \<Rightarrow> entry" where
  "deriveAfterPatch patch e0 =
    (let e1 = (if responseBody patch \<noteq> None \<and> responseBodyBytes e0 = None
               then e0\<lparr>responseBodyBytes := Some (bodyBytes (responseBody e0))\<rparr> else e0);
         e2 = (if responseBodySize patch \<noteq> None \<and> responseBodySize e1 = None
               then e1\<lparr>responseBodySize := responseBodySize patch\<rparr> else e1);
         e3 = (if requestBody patch \<noteq> None \<and> requestBodyBytes e2 = None
               then e2\<lparr>requestBodyBytes := Some (bodyBytes (requestBody e2))\<rparr> else e2);
         e4 = (if requestBodySize patch \<noteq> None \<and> requestBodySize e3 = None
               then e3\<lparr>requestBodySize := requestBodySize patch\<rparr> else e3)
     in e4)"

text \<open>\<open>this.requests.get(requestId)\<close>: the record object, if the key is known.\<close>

definition lookupRecord :: "string \<Rightarrow> storage \<Rightarrow> mem \<Rightarrow> (addr \<times> entry) option" where
  "lookupRecord requestId st m =
    (case map_of (requests st) requestId of
       None \<Rightarrow> None
     | Some a \<Rightarrow> (case cells (records m) a of None \<Rightarrow> None | Some e \<Rightarrow> Some (a, e)))"

text \<open>\<open>updateRequest(requestId, patch)\<close>: the record is changed in place; \<open>None\<close> is
  the \<open>null\<close> returned for an unknown identifier.\<close>

definition updateRequest :: "string \<Rightarrow> data \<Rightarrow> storage \<Rightarrow> mem \<Rightarrow> addr option \<times> mem" where
  "updateRequest requestId patch st m =
    (case lookupRecord requestId st m of
       None \<Rightarrow> (None, m)
     | Some (a, existing) \<Rightarrow>
         (Some a,
          m\<lparr>records := store a (deriveAfterPatch patch (Object_assign existing patch)) (records m)\<rparr>))"

definition getRequest :: "string \<Rightarrow> storage \<Rightarrow> mem \<Rightarrow> addr option" where
  "getRequest requestId st m = map_option fst (lookupRecord requestId st m)"

text \<open>\<open>this.requests.values()\<close>: the stored records, in insertion order.\<close>

definition storedRecords :: "storage \<Rightarrow> mem \<Rightarrow> entry list" where
  "storedRecords st m = List.map_filter (\<lambda>(k, a). cells (records m) a) (requests st)"

definition clearRequests :: "string option \<Rightarrow> storage \<Rightarrow> mem \<Rightarrow> nat \<times> storage" where
  "clearRequests pid st m =
    (case pid of
       Some p \<Rightarrow>
         (if p = [] then (length (requests st), st\<lparr>requests := []\<rparr>)
          else
            (let hit = (\<lambda>(k, a). case cells (records m) a of
                                     None \<Rightarrow> False | Some e \<Rightarrow> pageId e = Some p)
             in (length (filter hit (requests st)),
                 st\<lparr>requests := filter (\<lambda>x. \<not> hit x) (requests st)\<rparr>)))
     | None \<Rightarrow> (length (requests st), st\<lparr>requests := []\<rparr>))"

definition registerPageMonitor :: "string \<Rightarrow> string \<Rightarrow> storage \<Rightarrow> storage" where
  "registerPageMonitor pid monitor st =
     st\<lparr>activePageMonitors := AList.update pid monitor (activePageMonitors st)\<rparr>"

definition unregisterPageMonitor :: "string \<Rightarrow> storage \<Rightarrow> storage" where
  "unregisterPageMonitor pid st =
     st\<lparr>activePageMonitors := AList.delete pid (activePageMonitors st)\<rparr>"

definition reset :: "storage \<Rightarrow> storage" where
  "reset st = st\<lparr>requests := [], activePageMonitors := [], requestCounter := 0\<rparr>"

subsection \<open>getUsage\<close>

record usage =
  totalRequests :: int
  requestBytes :: int
  requestOriginalBytes :: int
  requestTruncated :: int
  responseBytes :: int
  responseOriginalBytes :: int
  responseTruncated :: int
  estimatedMemoryBytes :: int

definition zeroUsage :: usage where
  "zeroUsage = \<lparr>totalRequests = 0, requestBytes = 0, requestOriginalBytes = 0,
     requestTruncated = 0, responseBytes = 0, responseOriginalBytes = 0,
     responseTruncated = 0, estimatedMemoryBytes = 0\<rparr>"

text \<open>\<open>x || 0\<close> and \<open>x ?? y\<close> on a byte count that is a number or absent.\<close>

definition orZero :: "int option \<Rightarrow> int" where
  "orZero x = (case x of None \<Rightarrow> 0 | Some n \<Rightarrow> n)"

definition nullish :: "int option \<Rightarrow> int \<Rightarrow> int" where
  "nullish x y = (case x of None \<Rightarrow> y | Some n \<Rightarrow> n)"

text \<open>One pass of the loop body of \<open>getUsage\<close> over \<open>entry\<close>.\<close>

definition usageStep :: "entry \<Rightarrow> usage \<Rightarrow> usage" where
  "usageStep e u =
    (let reqSaved = orZero (requestBodyBytes e);
         reqOriginal = nullish (requestBodySize e) reqSaved;
         resSaved = orZero (responseBodyBytes e);
         resOriginal = nullish (responseBodySize e) resSaved
     in u\<lparr>requestBytes := requestBytes u + reqSaved,
          requestOriginalBytes := requestOriginalBytes u + reqOriginal,
          responseBytes := responseBytes u + resSaved,
          responseOriginalBytes := responseOriginalBytes u + resOriginal,
          requestTruncated :=
            (if requestBodyTruncated e = Some True then requestTruncated u + 1
             else requestTruncated u),
          responseTruncated :=
            (if responseBodyTruncated e = Some True then responseTruncated u + 1
             else responseTruncated u)\<rparr>)"

definition getUsage :: "storage \<Rightarrow> mem \<Rightarrow> usage" where
  "getUsage st m =
    (let u = fold usageStep (storedRecords st m) zeroUsage
     in u\<lparr>totalRequests := int (length (requests st)),
          estimatedMemoryBytes := requestBytes u + responseBytes u\<rparr>)"

section \<open>Regular expressions built by the store\<close>

text \<open>
  The store builds its patterns with \<open>new RegExp(source, "i")\<close> and only calls
  \<open>test\<close> on them. The engine is the runtime's; it is modelled for the sources made of
  literal characters, escaped syntax characters, \<open>.\<close>, and the quantifiers \<open>*\<close> and
  \<open>?\<close> (each optionally lazy), which covers every source \<open>makeWildcardRegExp\<close>
  produces. For any other source the engine is a parameter of the model (\<open>RegExp_ext\<close>
  below). A lazy quantifier changes which match is found first, not whether one exists,
  so \<open>test\<close> does not depend on it.
\<close>

datatype atom = Lit char | AnyChar

datatype quant = One | Star | Opt

type_synonym regex = "(atom \<times> quant) list"

datatype parse_result = Parsed regex | SyntaxError | Unsupported

definition backslash :: char where
  "backslash = CHR 0x5C"

text \<open>SyntaxCharacter of the ECMAScript pattern grammar.\<close>

definition syntaxCharacter :: "char \<Rightarrow> bool" where
  "syntaxCharacter c = (c \<in> set ''^$.*+?()[]{}|'' \<or> c = backslash)"

text \<open>Line feed and carriage return, the line terminators among code units below 256.\<close>

definition lineTerminator :: "char \<Rightarrow> bool" where
  "lineTerminator c = (c = CHR 0x0A \<or> c = CHR 0x0D)"

text \<open>
  Canonicalize of the pattern semantics with the \<open>i\<close> flag and without the \<open>u\<close> flag:
  the upper-case form of the code unit when that is a single code unit. Code units 181
  and 255 have upper-case forms above 255 that no other code unit below 256 shares; they
  are kept as they are, which leaves equality of canonical forms unchanged.
\<close>

definition canonicalize :: "char \<Rightarrow> char" where
  "canonicalize c =
    (let n = (of_char c :: nat)
     in if (97 \<le> n \<and> n \<le> 122) \<or> (224 \<le> n \<and> n \<le> 254 \<and> n \<noteq> 247)
        then char_of (n - 32) else c)"

datatype atom_result = AtomOk atom string | AtomSyntaxError | AtomUnsupported

text \<open>One atom at the head of the source; a quantifier there has nothing to repeat.\<close>

definition atomOf :: "char \<Rightarrow> string \<Rightarrow> atom_result" where
  "atomOf c cs =
    (if c = backslash then
       (case cs of
          [] \<Rightarrow> AtomSyntaxError
        | x # rest \<Rightarrow> if syntaxCharacter x then AtomOk (Lit x) rest else AtomUnsupported)
     else if c = CHR ''.'' then AtomOk AnyChar cs
     else if c = CHR ''*'' \<or> c = CHR ''?'' then AtomSyntaxError
     else if syntaxCharacter c then AtomUnsupported
     else AtomOk (Lit c) cs)"

definition skipLazy :: "string \<Rightarrow> string" where
  "skipLazy s = (case s of [] \<Rightarrow> [] | c # r \<Rightarrow> if c = CHR ''?'' then r else s)"

text \<open>The quantifier after an atom, and the source left after it.\<close>

definition quantOf :: "string \<Rightarrow> quant \<times> string" where
  "quantOf s =
    (case s of
       [] \<Rightarrow> (One, [])
     | c # r \<Rightarrow>
         if c = CHR ''*'' then (Star, skipLazy r)
         else if c = CHR ''?'' then (Opt, skipLazy r)
         else (One, s))"

lemma length_skipLazy: "length (skipLazy s) \<le> length s"
  by (cases s) (auto simp: skipLazy_def)

lemma length_quantOf: "length (snd (quantOf s)) \<le> length s"
  using length_skipLazy by (cases s) (auto simp: quantOf_def le_SucI)

lemma length_atomOf: "atomOf c cs = AtomOk a rest \<Longrightarrow> length rest \<le> length cs"
  by (auto simp: atomOf_def split: if_splits list.splits)

function parseTerms :: "string \<Rightarrow> parse_result" where
  "parseTerms [] = Parsed []"
| "parseTerms (c # cs) =
    (case atomOf c cs of
       AtomSyntaxError \<Rightarrow> SyntaxError
     | AtomUnsupported \<Rightarrow> Unsupported
     | AtomOk a rest \<Rightarrow>
         (case parseTerms (snd (quantOf rest)) of
            Parsed ts \<Rightarrow> Parsed ((a, fst (quantOf rest)) # ts)
          | SyntaxError \<Rightarrow> SyntaxError
          | Unsupported \<Rightarrow> Unsupported))"
  by pat_completeness auto
termination
proof (relation "measure length")
  show "wf (measure length)" by simp
next
  fix c cs a rest
  assume "atomOf c cs = AtomOk a rest"
  then have "length rest \<le> length cs" by (rule length_atomOf)
  moreover have "length (snd (quantOf rest)) \<le> length rest" by (rule length_quantOf)
  ultimately show "(snd (quantOf rest), c # cs) \<in> measure length" by simp
qed

fun atomMatches :: "atom \<Rightarrow> char \<Rightarrow> bool" where
  "atomMatches (Lit x) c = (canonicalize x = canonicalize c)"
| "atomMatches AnyChar c = (\<not> lineTerminator c)"

text \<open>Whether the pattern matches some prefix of the input.\<close>

fun matchHere :: "regex \<Rightarrow> string \<Rightarrow> bool" where
  "matchHere [] s = True"
| "matchHere ((a, One) # r) [] = False"
| "matchHere ((a, One) # r) (c # cs) = (atomMatches a c \<and> matchHere r cs)"
| "matchHere ((a, Opt) # r) [] = matchHere r []"
| "matchHere ((a, Opt) # r) (c # cs) =
     (matchHere r (c # cs) \<or> (atomMatches a c \<and> matchHere r cs))"
| "matchHere ((a, Star) # r) [] = matchHere r []"
| "matchHere ((a, Star) # r) (c # cs) =
     (matchHere r (c # cs) \<or> (atomMatches a c \<and> matchHere ((a, Star) # r) cs))"

text \<open>\<open>pattern.test(s)\<close> without the \<open>g\<close> and \<open>y\<close> flags: a match may start at any
  index of the input, the end included.\<close>

fun regexTest :: "regex \<Rightarrow> string \<Rightarrow> bool" where
  "regexTest r [] = matchHere r []"
| "regexTest r (c # cs) = (matchHere r (c # cs) \<or> regexTest r cs)"

text \<open>What the runtime supplies: the pattern engine on sources outside the modelled
  ones (\<open>None\<close> when the constructor throws), and \<open>new Date(s).getTime()\<close> (\<open>None\<close>
  when the time value is \<open>NaN\<close>).\<close>

record runtime =
  RegExp_ext :: "string \<Rightarrow> (string \<Rightarrow> bool) option"
  Date_getTime :: "string \<Rightarrow> int option"

text \<open>\<open>new RegExp(source, "i")\<close>, as the \<open>test\<close> function of the result; \<open>None\<close> when
  the constructor throws.\<close>

definition newRegExp :: "runtime \<Rightarrow> string \<Rightarrow> (string \<Rightarrow> bool) option" where
  "newRegExp rt source =
    (case parseTerms source of
       Parsed r \<Rightarrow> Some (regexTest r)
     | SyntaxError \<Rightarrow> None
     | Unsupported \<Rightarrow> RegExp_ext rt source)"

text \<open>\<open>pattern.replace(/[.+^${}()|\[\]\\]/g, "\\$&")\<close>\<close>

definition escapeWildcard :: "string \<Rightarrow> string" where
  "escapeWildcard p =
     concat (map (\<lambda>c. if c \<in> set ''.+^${}()|[]'' \<or> c = backslash then [backslash, c] else [c]) p)"

text \<open>\<open>escaped.replace(/\*/g, ".*")\<close>\<close>

definition starToDotStar :: "string \<Rightarrow> string" where
  "starToDotStar p = concat (map (\<lambda>c. if c = CHR ''*'' then ''.*'' else [c]) p)"

definition makeWildcardRegExp :: "runtime \<Rightarrow> string \<Rightarrow> (string \<Rightarrow> bool) option" where
  "makeWildcardRegExp rt pattern = newRegExp rt (starToDotStar (escapeWildcard pattern))"

text \<open>\<open>query.replace(/[.*+?^${}()|[\]\\]/g, "\\$&")\<close>\<close>

definition escapeSearch :: "string \<Rightarrow> string" where
  "escapeSearch q =
     concat (map (\<lambda>c. if c \<in> set ''.*+?^${}()|[]'' \<or> c = backslash then [backslash, c] else [c]) q)"

text \<open>\<open>makeSearchRegExp(query)\<close>: \<open>null\<close> for an empty query, otherwise the pattern,
  built from the escaped query when the query itself is not a valid source.\<close>

definition makeSearchRegExp :: "runtime \<Rightarrow> string \<Rightarrow> (string \<Rightarrow> bool) option" where
  "makeSearchRegExp rt query =
    (if query = [] then None
     else (case newRegExp rt query of
             Some t \<Rightarrow> Some t
           | None \<Rightarrow> newRegExp rt (escapeSearch query)))"

section \<open>queryRequests\<close>

text \<open>The \<open>since\<close> filter is a number of milliseconds or a string. The number is an
  integer; \<open>NaN\<close>, which is falsy like 0, is not modelled.\<close>

datatype since = SinceNumber int | SinceString string

record filters =
  f_pageId :: "string option"
  f_urlPattern :: "string option"
  f_method :: "string option"
  f_status :: "int option"
  f_resourceType :: "string option"
  f_since :: "since option"
  f_search :: "string option"
  f_limit :: "int option"

definition noFilters :: filters where
  "noFilters = \<lparr>f_pageId = None, f_urlPattern = None, f_method = None, f_status = None,
     f_resourceType = None, f_since = None, f_search = None, f_limit = None\<rparr>"

text \<open>\<open>if (x)\<close> on an optional string: \<open>undefined\<close> and the empty string are falsy.\<close>

definition truthyString :: "string option \<Rightarrow> bool" where
  "truthyString x = (case x of None \<Rightarrow> False | Some s \<Rightarrow> s \<noteq> [])"

text \<open>\<open>if (since)\<close> for a value that is present: the number 0 and the empty string
  are falsy. \<open>if (sinceTs)\<close> in \<open>filterSince\<close> below is falsy for \<open>null\<close> and for 0.\<close>

definition truthySince :: "since \<Rightarrow> bool" where
  "truthySince x = (case x of SinceNumber n \<Rightarrow> n \<noteq> 0 | SinceString s \<Rightarrow> s \<noteq> [])"

text \<open>\<open>None\<close> is the \<open>null\<close> the function returns for an unparseable string.\<close>

definition normalizeTimestamp :: "runtime \<Rightarrow> since \<Rightarrow> int option" where
  "normalizeTimestamp rt v =
    (case v of SinceNumber n \<Rightarrow> Some n | SinceString s \<Rightarrow> Date_getTime rt s)"

text \<open>\<open>String.prototype.toUpperCase\<close>, as code units: 223 becomes two units, 181 and
  255 leave the range below 256.\<close>

definition upperUnits :: "char \<Rightarrow> nat list" where
  "upperUnits c =
    (let n = (of_char c :: nat)
     in if (97 \<le> n \<and> n \<le> 122) \<or> (224 \<le> n \<and> n \<le> 254 \<and> n \<noteq> 247) then [n - 32]
        else if n = 223 then [83, 83]
        else if n = 181 then [924]
        else if n = 255 then [376]
        else [n])"

definition toUpperCase :: "string \<Rightarrow> nat list" where
  "toUpperCase s = concat (map upperUnits s)"

text \<open>The text a pattern is tested against: \<open>test\<close> turns \<open>undefined\<close> into the string
  \<open>"undefined"\<close>.\<close>

definition urlText :: "'a props_scheme \<Rightarrow> string" where
  "urlText e = (case url e of None \<Rightarrow> ''undefined'' | Some u \<Rightarrow> u)"

text \<open>\<open>body && pattern.test(body)\<close>\<close>

definition bodyMatches :: "(string \<Rightarrow> bool) \<Rightarrow> string nullable option \<Rightarrow> bool" where
  "bodyMatches t b = (case b of Some (Val s) \<Rightarrow> s \<noteq> [] \<and> t s | _ \<Rightarrow> False)"

text \<open>The filter steps of \<open>queryRequests\<close>, each as the source writes it.\<close>

definition filterPageId :: "filters \<Rightarrow> entry list \<Rightarrow> entry list" where
  "filterPageId f results =
    (if truthyString (f_pageId f) then filter (\<lambda>e. pageId e = f_pageId f) results else results)"

definition filterUrlPattern :: "runtime \<Rightarrow> filters \<Rightarrow> entry list \<Rightarrow> entry list" where
  "filterUrlPattern rt f results =
    (case f_urlPattern f of
       None \<Rightarrow> results
     | Some p \<Rightarrow>
         if p = [] then results
         else (case makeWildcardRegExp rt p of
                 None \<Rightarrow> results
               | Some t \<Rightarrow> filter (\<lambda>e. t (urlText e)) results))"

definition filterMethod :: "filters \<Rightarrow> entry list \<Rightarrow> entry list" where
  "filterMethod f results =
    (case f_method f of
       None \<Rightarrow> results
     | Some m \<Rightarrow>
         if m = [] then results
         else filter (\<lambda>e. toUpperCase (case method' e of None \<Rightarrow> [] | Some x \<Rightarrow> x) = toUpperCase m)
                results)"

definition filterStatus :: "filters \<Rightarrow> entry list \<Rightarrow> entry list" where
  "filterStatus f results =
    (case f_status f of
       None \<Rightarrow> results
     | Some n \<Rightarrow> filter (\<lambda>e. status e = Some (Val n)) results)"

definition filterResourceType :: "filters \<Rightarrow> entry list \<Rightarrow> entry list" where
  "filterResourceType f results =
    (if truthyString (f_resourceType f)
     then filter (\<lambda>e. resourceType e = f_resourceType f) results else results)"

definition filterSince :: "runtime \<Rightarrow> filters \<Rightarrow> entry list \<Rightarrow> entry list" where
  "filterSince rt f results =
    (case f_since f of
       None \<Rightarrow> results
     | Some v \<Rightarrow>
         if truthySince v then
           (case normalizeTimestamp rt v of
              None \<Rightarrow> results
            | Some sinceTs \<Rightarrow>
                if sinceTs = 0 then results else filter (\<lambda>e. timestamp e \<ge> sinceTs) results)
         else results)"

definition filterSearch :: "runtime \<Rightarrow> filters \<Rightarrow> entry list \<Rightarrow> entry list" where
  "filterSearch rt f results =
    (case f_search f of
       None \<Rightarrow> results
     | Some q \<Rightarrow>
         if q = [] then results
         else (case makeSearchRegExp rt q of
                 None \<Rightarrow> results
               | Some t \<Rightarrow>
                   filter (\<lambda>e. t (urlText e) \<or> bodyMatches t (requestBody e)
                                \<or> bodyMatches t (responseBody e)) results))"

text \<open>\<open>results.sort((a, b) => b.timestamp - a.timestamp)\<close>: the sort is stable, so it is
  the stable sort by descending timestamp.\<close>

definition sortByTimestampDesc :: "entry list \<Rightarrow> entry list" where
  "sortByTimestampDesc results = sort_key (\<lambda>e. - timestamp e) results"

text \<open>\<open>typeof limit === "number" && limit > 0 ? results.slice(0, limit) : results\<close>\<close>

definition applyLimit :: "int option \<Rightarrow> 'a list \<Rightarrow> 'a list" where
  "applyLimit l results =
    (case l of None \<Rightarrow> results | Some n \<Rightarrow> if n > 0 then take (nat n) results else results)"

text \<open>\<open>limited.map((entry) => ({ ...entry }))\<close>: one new object per selected record,
  with the record's own properties and the values they hold.\<close>

fun copyAll :: "entry list \<Rightarrow> entry heap \<Rightarrow> addr list \<times> entry heap" where
  "copyAll [] h = ([], h)"
| "copyAll (e # es) h =
    (let (a, h1) = alloc e h; (as, h2) = copyAll es h1 in (a # as, h2))"

definition selectRecords :: "runtime \<Rightarrow> filters \<Rightarrow> entry list \<Rightarrow> entry list" where
  "selectRecords rt f results =
     sortByTimestampDesc
       (filterSearch rt f (filterSince rt f (filterResourceType f (filterStatus f
         (filterMethod f (filterUrlPattern rt f (filterPageId f results)))))))"

record query_result =
  total :: nat
  results :: "addr list"

definition queryRequests :: "runtime \<Rightarrow> filters \<Rightarrow> storage \<Rightarrow> mem \<Rightarrow> query_result \<times> mem" where
  "queryRequests rt f st m =
    (let selected = selectRecords rt f (storedRecords st m);
         limited = applyLimit (f_limit f) selected;
         (copies, h) = copyAll limited (records m)
     in (\<lparr>total = length selected, results = copies\<rparr>, m\<lparr>records := h\<rparr>))"

section \<open>The page tracker (class PageTracker)\<close>

text \<open>
  The tracker reads a live page, request or response through accessor calls that may
  throw. What a call gives is an input of the model: \<open>Threw msg\<close> or \<open>Gave v\<close>.
\<close>

datatype 'a attempt = Threw string | Gave 'a

record tracker =
  t_context :: nat
  t_page :: nat
  t_pageId :: string
  t_storage :: addr
  maxBodyLength :: int
  maxPostDataLength :: int
  monitorId :: string
  disposed :: bool
  latestUrl :: string
  latestTitle :: string

text \<open>\<open>page.url()\<close>, and \<open>Tab.forPage(page)\<close> with its \<open>lastTitle()\<close>: \<open>None\<close> when the
  page has no tab, \<open>Some (Threw _)\<close> when either call throws.\<close>

record page_view =
  page_url :: "string attempt"
  tab_lastTitle :: "string attempt option"

definition safePageUrl :: "page_view \<Rightarrow> string" where
  "safePageUrl pv = (case page_url pv of Gave u \<Rightarrow> u | Threw _ \<Rightarrow> ''about:blank'')"

definition safePageTitle :: "page_view \<Rightarrow> string" where
  "safePageTitle pv =
    (case tab_lastTitle pv of
       Some (Gave t) \<Rightarrow> t
     | Some (Threw _) \<Rightarrow> []
     | None \<Rightarrow> (case page_url pv of Gave u \<Rightarrow> u | Threw _ \<Rightarrow> []))"

text \<open>A request object as the handlers read it. \<open>req_frameUrl\<close> is \<open>request.frame?.()\<close>
  followed by \<open>frame.url()\<close>; \<open>req_failureText\<close> is \<open>request.failure()?.errorText\<close>.\<close>

record request_view =
  req_identity :: nat
  req_postData :: "string nullable attempt"
  req_url :: "string attempt"
  req_method :: "string attempt"
  req_resourceType :: "string attempt"
  req_isNavigationRequest :: "bool attempt"
  req_frameUrl :: "string attempt nullable attempt"
  req_headers :: "plain_object option attempt"
  req_failureText :: "string option attempt"

definition safeFrameUrl :: "request_view \<Rightarrow> string nullable" where
  "safeFrameUrl r =
    (case req_frameUrl r of
       Gave (Val (Gave u)) \<Rightarrow> Val u
     | _ \<Rightarrow> Null)"

text \<open>A reference to a new plain object with the given content, or \<open>null\<close> when there
  is none. \<open>safeClone(value)\<close> is \<open>null\<close> for a missing value and otherwise the new
  object \<open>JSON.parse(JSON.stringify(value))\<close> builds.\<close>

definition newObject :: "plain_object option \<Rightarrow> plain_object heap \<Rightarrow> addr nullable \<times> plain_object heap" where
  "newObject v h =
    (case v of
       None \<Rightarrow> (Null, h)
     | Some obj \<Rightarrow> (let (a, h1) = alloc obj h in (Val a, h1)))"

definition safeClone :: "plain_object option \<Rightarrow> plain_object heap \<Rightarrow> addr nullable \<times> plain_object heap" where
  "safeClone v h = newObject v h"

text \<open>\<open>safeTruncate(producer, maxLength)\<close>: the value and the truncated flag.\<close>

definition safeTruncate :: "string nullable attempt \<Rightarrow> int \<Rightarrow> string nullable \<times> bool" where
  "safeTruncate produced maxLength =
    (case produced of
       Threw _ \<Rightarrow> (Null, False)
     | Gave Null \<Rightarrow> (Null, False)
     | Gave (Val v) \<Rightarrow>
         if v = [] then (Val v, False)
         else if int (length v) > maxLength then (Val (slice0 v maxLength), True)
         else (Val v, False))"

text \<open>\<open>record.id\<close> of the record a reference denotes.\<close>

definition recordId :: "mem \<Rightarrow> addr \<Rightarrow> string option" where
  "recordId m a = map_option id' (cells (records m) a)"

text \<open>The argument \<open>_onRequest\<close> passes to \<open>saveRequest\<close>.\<close>

definition requestData ::
  "tracker \<Rightarrow> string \<Rightarrow> string \<Rightarrow> string \<Rightarrow> bool \<Rightarrow> string nullable \<Rightarrow> addr nullable \<Rightarrow>
   string nullable \<Rightarrow> bool \<Rightarrow> data" where
  "requestData t u me rty nav frame hdrs body truncated =
     noData\<lparr>pageId := Some (t_pageId t),
       pageUrl := Some (latestUrl t),
       pageTitle := Some (latestTitle t),
       url := Some u,
       method' := Some me,
       resourceType := Some rty,
       isNavigationRequest := Some nav,
       frameUrl := Some frame,
       requestHeaders := Some hdrs,
       requestBody := Some body,
       requestBodyTruncated := Some truncated,
       status := Some Null,
       statusText := Some Null,
       responseHeaders := Some Null,
       responseBody := Some Null,
       responseBodyTruncated := Some False,
       responseBodyError := Some Null,
       timing := Some Null,
       error' := Some Null\<rparr>"

text \<open>\<open>_onRequest(request)\<close>. The tracker's own fields, its store and the memory are
  passed and returned. When an unguarded accessor throws, the handler's \<open>catch\<close> leaves
  the store as it was.\<close>

definition onRequest ::
  "tracker \<Rightarrow> page_view \<Rightarrow> request_view \<Rightarrow> int \<Rightarrow> storage \<Rightarrow> mem \<Rightarrow> tracker \<times> storage \<times> mem" where
  "onRequest t0 pv r now st m =
    (let t = t0\<lparr>latestUrl := safePageUrl pv, latestTitle := safePageTitle pv\<rparr>;
         (body, truncated) = safeTruncate (req_postData r) (maxPostDataLength t)
     in (case (req_url r, req_method r, req_resourceType r, req_isNavigationRequest r,
               req_headers r) of
           (Gave u, Gave me, Gave rty, Gave nav, Gave hdr) \<Rightarrow>
             (let (hdrs, oh) = safeClone hdr (objects m);
                  (a, st1, m1) =
                    saveRequest now
                      (requestData t u me rty nav (safeFrameUrl r) hdrs body truncated)
                      st (m\<lparr>objects := oh\<rparr>)
              in (t, st1,
                  m1\<lparr>requestIdSymbol := (requestIdSymbol m1)(req_identity r := recordId m1 a)\<rparr>))
         | _ \<Rightarrow> (t, st, m)))"

text \<open>A response object as \<open>_onResponse\<close> reads it; \<open>resp_text\<close> is what
  \<open>await response.text()\<close> gives (\<open>Gave Null\<close> for a value that is not a string).\<close>

record raw_timing =
  startTime :: "real option"
  domainLookup :: "real option"
  connectStart :: "real option"
  connectEnd :: "real option"
  requestStart :: "real option"
  responseStart :: "real option"
  responseEnd :: "real option"

record response_view =
  resp_request :: nat
  resp_headers :: "plain_object attempt"
  resp_status :: "int attempt"
  resp_statusText :: "string attempt"
  resp_text :: "string nullable attempt"
  resp_timing :: "raw_timing nullable attempt"

text \<open>\<open>getHeader(headers, name)\<close> on a plain object, for a lower-case \<open>name\<close>.\<close>

definition getHeader :: "plain_object \<Rightarrow> string \<Rightarrow> string nullable" where
  "getHeader headers name = (case map_of headers name of Some (PStr v) \<Rightarrow> Val v | _ \<Rightarrow> Null)"

record body_result =
  body :: "string nullable"
  truncated :: bool
  body_error :: "string nullable"

text \<open>\<open>_readResponseBody\<close>; \<open>error?.message || String(error)\<close> is the message the
  rejected read carries.\<close>

definition readResponseBody :: "tracker \<Rightarrow> string nullable attempt \<Rightarrow> body_result" where
  "readResponseBody t txt =
    (case txt of
       Threw msg \<Rightarrow> \<lparr>body = Null, truncated = False, body_error = Val msg\<rparr>
     | Gave Null \<Rightarrow> \<lparr>body = Null, truncated = False, body_error = Null\<rparr>
     | Gave (Val s) \<Rightarrow>
         (let tr = int (length s) > maxBodyLength t
          in \<lparr>body = Val (if tr then slice0 s (maxBodyLength t) else s), truncated = tr,
              body_error = Null\<rparr>))"

text \<open>\<open>safeTiming(response)\<close>: the timing object, or \<open>None\<close> for \<open>null\<close>.\<close>

definition normalizeTiming :: "real \<Rightarrow> real option \<Rightarrow> prim" where
  "normalizeTiming start v =
    (case v of Some x \<Rightarrow> if x \<ge> 0 then PNum (x - start) else PNull | None \<Rightarrow> PNull)"

definition safeTiming :: "raw_timing nullable attempt \<Rightarrow> plain_object option" where
  "safeTiming tm =
    (case tm of
       Gave (Val raw) \<Rightarrow>
         (let start = (case startTime raw of None \<Rightarrow> 0 | Some x \<Rightarrow> x)
          in Some [(''startTime'', PNum start),
                   (''domainLookup'', normalizeTiming start (domainLookup raw)),
                   (''connectStart'', normalizeTiming start (connectStart raw)),
                   (''connectEnd'', normalizeTiming start (connectEnd raw)),
                   (''requestStart'', normalizeTiming start (requestStart raw)),
                   (''responseStart'', normalizeTiming start (responseStart raw)),
                   (''responseEnd'', normalizeTiming start (responseEnd raw)),
                   (''duration'', (case responseEnd raw of
                                      Some x \<Rightarrow> PNum (x - start) | None \<Rightarrow> PNull))])
     | _ \<Rightarrow> None)"

text \<open>\<open>timing?.duration ?? null\<close>\<close>

definition durationOf :: "plain_object option \<Rightarrow> real nullable" where
  "durationOf tm =
    (case tm of
       None \<Rightarrow> Null
     | Some obj \<Rightarrow> (case map_of obj ''duration'' of Some (PNum x) \<Rightarrow> Val x | _ \<Rightarrow> Null))"

text \<open>The patch \<open>_onResponse\<close> passes to \<open>updateRequest\<close>.\<close>

definition responsePatch ::
  "int \<Rightarrow> string \<Rightarrow> addr nullable \<Rightarrow> body_result \<Rightarrow> string nullable \<Rightarrow> addr nullable \<Rightarrow>
   real nullable \<Rightarrow> data" where
  "responsePatch st_code st_text hdrs b ctype tm dur =
     noData\<lparr>status := Some (Val st_code),
       statusText := Some (Val st_text),
       responseHeaders := Some hdrs,
       responseBody := Some (body b),
       responseBodyTruncated := Some (truncated b),
       responseBodyError := Some (body_error b),
       contentType := Some ctype,
       timing := Some tm,
       durationMs := Some dur\<rparr>"

text \<open>\<open>_onResponse(response)\<close>, taken at the point where the body read has settled.\<close>

definition onResponse ::
  "tracker \<Rightarrow> page_view \<Rightarrow> response_view \<Rightarrow> storage \<Rightarrow> mem \<Rightarrow> tracker \<times> mem" where
  "onResponse t0 pv resp st m =
    (let t = t0\<lparr>latestUrl := safePageUrl pv, latestTitle := safePageTitle pv\<rparr>
     in (case requestIdSymbol m (resp_request resp) of
           None \<Rightarrow> (t, m)
         | Some requestId \<Rightarrow>
             if requestId = [] then (t, m)
             else (case (resp_headers resp, resp_status resp, resp_statusText resp) of
                     (Gave hdr, Gave st_code, Gave st_text) \<Rightarrow>
                       (let ctype = getHeader hdr ''content-type'';
                            b = readResponseBody t (resp_text resp);
                            tobj = safeTiming (resp_timing resp);
                            (tm, oh1) = newObject tobj (objects m);
                            (hdrs, oh2) = safeClone (Some hdr) oh1;
                            (found, m1) =
                              updateRequest requestId
                                (responsePatch st_code st_text hdrs b ctype tm (durationOf tobj))
                                st (m\<lparr>objects := oh2\<rparr>)
                        in (t, m1))
                   | _ \<Rightarrow> (t, m))))"

text \<open>The patch \<open>_onRequestFailed\<close> passes to \<open>updateRequest\<close>.\<close>

definition failurePatch :: "string option \<Rightarrow> data" where
  "failurePatch txt =
     noData\<lparr>status := Some (Val 0),
       statusText := Some (Val ''FAILED''),
       error' := Some (Val (case txt of
                              None \<Rightarrow> ''Request failed''
                            | Some e \<Rightarrow> if e = [] then ''Request failed'' else e))\<rparr>"

definition onRequestFailed ::
  "tracker \<Rightarrow> page_view \<Rightarrow> request_view \<Rightarrow> storage \<Rightarrow> mem \<Rightarrow> tracker \<times> mem" where
  "onRequestFailed t0 pv r st m =
    (let t = t0\<lparr>latestUrl := safePageUrl pv, latestTitle := safePageTitle pv\<rparr>
     in (case requestIdSymbol m (req_identity r) of
           None \<Rightarrow> (t, m)
         | Some requestId \<Rightarrow>
             if requestId = [] then (t, m)
             else (case req_failureText r of
                     Threw _ \<Rightarrow> (t, m)
                   | Gave txt \<Rightarrow> (t, snd (updateRequest requestId (failurePatch txt) st m)))))"

section \<open>Limits configuration and context lifecycle (state.js)\<close>

text \<open>
  A limit option can be any value; the code passes it through \<open>Number(value)\<close>, which
  the runtime computes. The model takes the resulting Number: not-a-number, an infinity,
  or the real value of a finite double.
\<close>

datatype jsnumber = NaN | Finite real | PosInfinity | NegInfinity

record limits =
  maxRequestBodyBytes :: jsnumber
  maxResponseBodyBytes :: jsnumber

text \<open>An option is absent (\<open>None\<close>), \<open>null\<close>, or a value given by its \<open>Number(value)\<close>.\<close>

record limit_options =
  maxRequestBodyKB :: "jsnumber nullable option"
  maxResponseBodyKB :: "jsnumber nullable option"

definition KB :: real where
  "KB = 1024"

definition DEFAULT_LIMITS :: limits where
  "DEFAULT_LIMITS = \<lparr>maxRequestBodyBytes = Finite (32 * KB), maxResponseBodyBytes = Finite (64 * KB)\<rparr>"

text \<open>\<open>Math.round(x)\<close>: the nearest integer, a tie going up.\<close>

definition Math_round :: "real \<Rightarrow> real" where
  "Math_round x = of_int \<lfloor>x + 1 / 2\<rfloor>"

text \<open>\<open>None\<close> is the \<open>undefined\<close> the function returns.\<close>

definition parseLimitOption :: "jsnumber nullable option \<Rightarrow> real option" where
  "parseLimitOption v =
    (case v of
       None \<Rightarrow> None
     | Some Null \<Rightarrow> None
     | Some (Val number) \<Rightarrow>
         (case number of
            Finite x \<Rightarrow> if x \<le> 0 then None else Some (Math_round x)
          | _ \<Rightarrow> None))"

text \<open>\<open>parsed * KB\<close> on doubles: exact for an integral \<open>parsed\<close>, unless the product
  leaves the range of finite doubles.\<close>

definition timesKB :: "real \<Rightarrow> jsnumber" where
  "timesKB parsed = (if parsed * KB \<ge> 2 ^ 1024 then PosInfinity else Finite (parsed * KB))"

definition configureNetworkLimits :: "limit_options \<Rightarrow> limits \<Rightarrow> limits" where
  "configureNetworkLimits options current =
    (let next0 = current;
         next1 = (case maxRequestBodyKB options of
                    None \<Rightarrow> next0
                  | Some v \<Rightarrow> (case parseLimitOption (Some v) of
                                 None \<Rightarrow> next0
                               | Some parsed \<Rightarrow> next0\<lparr>maxRequestBodyBytes := timesKB parsed\<rparr>));
         next2 = (case maxResponseBodyKB options of
                    None \<Rightarrow> next1
                  | Some v \<Rightarrow> (case parseLimitOption (Some v) of
                                 None \<Rightarrow> next1
                               | Some parsed \<Rightarrow> next1\<lparr>maxResponseBodyBytes := timesKB parsed\<rparr>))
     in next2)"

text \<open>The two environment variables, each unset (\<open>None\<close>) or a string given by its
  \<open>Number\<close>.\<close>

definition configureNetworkLimitsFromEnv :: "jsnumber option \<Rightarrow> jsnumber option \<Rightarrow> limits \<Rightarrow> limits" where
  "configureNetworkLimitsFromEnv requestEnv responseEnv current =
    (if requestEnv = None \<and> responseEnv = None then current
     else configureNetworkLimits
            \<lparr>maxRequestBodyKB = map_option Val requestEnv,
             maxResponseBodyKB = map_option Val responseEnv\<rparr> current)"

subsection \<open>Contexts, pages and trackers\<close>

text \<open>
  Browser contexts and pages are objects of the host library; the model knows them by
  identity (a number). \<open>contextState\<close> is the \<open>WeakMap\<close>, \<open>cs_trackers\<close> the \<open>Map\<close>
  from page to tracker. \<open>pageListeners\<close> holds, per page, the handlers registered with
  \<open>page.on\<close>: the event name and the tracker whose bound method it is.
\<close>

record context_state =
  cs_storage :: addr
  cs_trackers :: "(nat \<times> addr) list"

record world =
  contextState :: "nat \<Rightarrow> context_state option"
  pageCounter :: nat
  trackerCounter :: nat
  currentLimits :: limits
  storages :: "storage heap"
  trackers :: "tracker heap"
  pageListeners :: "nat \<Rightarrow> (string \<times> addr) list"

definition initialWorld :: world where
  "initialWorld = \<lparr>contextState = (\<lambda>_. None), pageCounter = 0, trackerCounter = 0,
     currentLimits = DEFAULT_LIMITS, storages = emptyHeap, trackers = emptyHeap,
     pageListeners = (\<lambda>_. [])\<rparr>"

text \<open>The options object of the \<open>PageTracker\<close> constructor.\<close>

record tracker_options =
  o_context :: nat
  o_page :: nat
  o_pageId :: string
  o_storage :: addr
  o_maxBodyLength :: "int option"
  o_maxPostDataLength :: "int option"
  o_limits :: "limits option"

text \<open>A change to the store object a reference denotes.\<close>

definition onStorage :: "addr \<Rightarrow> (storage \<Rightarrow> storage) \<Rightarrow> storage heap \<Rightarrow> storage heap" where
  "onStorage a f h = (case cells h a of None \<Rightarrow> h | Some st \<Rightarrow> store a (f st) h)"

text \<open>\<open>new PageTracker(options)\<close>; \<open>pv\<close> is the page as \<open>safePageUrl\<close> and
  \<open>safePageTitle\<close> find it.\<close>

definition newPageTracker :: "tracker_options \<Rightarrow> page_view \<Rightarrow> world \<Rightarrow> addr \<times> world" where
  "newPageTracker options pv w =
    (let counter = Suc (trackerCounter w);
         t = \<lparr>t_context = o_context options,
              t_page = o_page options,
              t_pageId = o_pageId options,
              t_storage = o_storage options,
              maxBodyLength = (case o_maxBodyLength options of None \<Rightarrow> 64 * 1024 | Some n \<Rightarrow> n),
              maxPostDataLength =
                (case o_maxPostDataLength options of None \<Rightarrow> 32 * 1024 | Some n \<Rightarrow> n),
              monitorId = ''monitor-'' @ showNat counter,
              disposed = False,
              latestUrl = safePageUrl pv,
              latestTitle = safePageTitle pv\<rparr>;
         (a, th) = alloc t (trackers w)
     in (a,
         w\<lparr>trackerCounter := counter,
           trackers := th,
           pageListeners := (pageListeners w)
             (t_page t := pageListeners w (t_page t)
                @ [(''request'', a), (''response'', a), (''requestfailed'', a)]),
           storages := onStorage (t_storage t) (registerPageMonitor (t_pageId t) (monitorId t))
                         (storages w)\<rparr>))"

text \<open>\<open>page.off(event, handler)\<close>: the most recently added instance of the handler goes.\<close>

definition removeListener :: "string \<times> addr \<Rightarrow> (string \<times> addr) list \<Rightarrow> (string \<times> addr) list" where
  "removeListener x xs = rev (remove1 x (rev xs))"

text \<open>\<open>tracker.dispose()\<close>\<close>

definition dispose :: "addr \<Rightarrow> world \<Rightarrow> world" where
  "dispose a w =
    (case cells (trackers w) a of
       None \<Rightarrow> w
     | Some t \<Rightarrow>
         if disposed t then w
         else w\<lparr>trackers := store a (t\<lparr>disposed := True\<rparr>) (trackers w),
                pageListeners := (pageListeners w)
                  (t_page t := removeListener (''requestfailed'', a)
                                 (removeListener (''response'', a)
                                   (removeListener (''request'', a) (pageListeners w (t_page t))))),
                storages := onStorage (t_storage t) (unregisterPageMonitor (t_pageId t))
                              (storages w)\<rparr>)"

definition ensureContextState :: "nat \<Rightarrow> world \<Rightarrow> context_state \<times> world" where
  "ensureContextState c w =
    (case contextState w c of
       Some state \<Rightarrow> (state, w)
     | None \<Rightarrow>
         (let (sa, sh) = alloc newStorage (storages w);
              state = \<lparr>cs_storage = sa, cs_trackers = []\<rparr>
          in (state, w\<lparr>storages := sh, contextState := (contextState w)(c \<mapsto> state)\<rparr>)))"

text \<open>\<open>attachPage(context, page)\<close>: the reference to the page's tracker.\<close>

definition attachPage :: "nat \<Rightarrow> nat \<Rightarrow> page_view \<Rightarrow> world \<Rightarrow> addr \<times> world" where
  "attachPage c p pv w =
    (let (state, w1) = ensureContextState c w
     in (case map_of (cs_trackers state) p of
           Some t \<Rightarrow> (t, w1)
         | None \<Rightarrow>
             (let w2 = w1\<lparr>pageCounter := Suc (pageCounter w1)\<rparr>;
                  (t, w3) =
                    newPageTracker
                      \<lparr>o_context = c, o_page = p,
                       o_pageId = ''page-'' @ showNat (pageCounter w2),
                       o_storage = cs_storage state,
                       o_maxBodyLength = None, o_maxPostDataLength = None,
                       o_limits = Some (currentLimits w2)\<rparr> pv w2
              in (t, w3\<lparr>contextState := (contextState w3)
                          (c \<mapsto> state\<lparr>cs_trackers := AList.update p t (cs_trackers state)\<rparr>)\<rparr>))))"

definition detachPage :: "nat \<Rightarrow> nat \<Rightarrow> world \<Rightarrow> world" where
  "detachPage c p w =
    (case contextState w c of
       None \<Rightarrow> w
     | Some state \<Rightarrow>
         (case map_of (cs_trackers state) p of
            None \<Rightarrow> w
          | Some t \<Rightarrow>
              (let w1 = dispose t w
               in w1\<lparr>contextState := (contextState w1)
                       (c \<mapsto> state\<lparr>cs_trackers := AList.delete p (cs_trackers state)\<rparr>)\<rparr>)))"

definition resetContext :: "nat \<Rightarrow> world \<Rightarrow> world" where
  "resetContext c w =
    (case contextState w c of
       None \<Rightarrow> w
     | Some state \<Rightarrow>
         (let w1 = fold dispose (map snd (cs_trackers state)) w
          in w1\<lparr>contextState := (contextState w1)(c \<mapsto> state\<lparr>cs_trackers := []\<rparr>),
                storages := onStorage (cs_storage state) reset (storages w1)\<rparr>))"

definition getRequestStorage :: "nat \<Rightarrow> world \<Rightarrow> addr \<times> world" where
  "getRequestStorage c w = (let (state, w1) = ensureContextState c w in (cs_storage state, w1))"

text \<open>\<open>configureNetworkLimits\<close> on the module's \<open>currentLimits\<close>, and \<open>getLimits()\<close>.\<close>

definition configure :: "limit_options \<Rightarrow> world \<Rightarrow> world" where
  "configure options w = w\<lparr>currentLimits := configureNetworkLimits options (currentLimits w)\<rparr>"

definition getLimits :: "world \<Rightarrow> limits" where
  "getLimits w = currentLimits w"

section \<open>Invariant of a store and its memory\<close>

text \<open>
  What the store's own operations keep true: every stored reference denotes an allocated
  record object, and every key was issued by the store's counter.
\<close>

definition slot_ok :: "storage \<Rightarrow> mem \<Rightarrow> string \<times> addr \<Rightarrow> bool" where
  "slot_ok st m x =
    (snd x < brk (records m) \<and> cells (records m) (snd x) \<noteq> None
     \<and> (\<exists>n. 0 < n \<and> n \<le> requestCounter st \<and> fst x = ''req-'' @ showNat n))"

definition store_inv :: "storage \<Rightarrow> mem \<Rightarrow> bool" where
  "store_inv st m = list_all (slot_ok st m) (requests st)"

text \<open>The record \<open>saveRequest\<close> builds.\<close>

definition savedRecord :: "int \<Rightarrow> data \<Rightarrow> storage \<Rightarrow> entry" where
  "savedRecord now d st = deriveByteFields (spreadRecord (nextRequestId st) now d)"

text \<open>The value of a decimal numeral, used to tell identifiers apart.\<close>

definition readNat :: "string \<Rightarrow> nat" where
  "readNat s = foldl (\<lambda>acc c. 10 * acc + ((of_char c :: nat) - 48)) 0 s"

text \<open>A record with an untruncated request body and a truncated response body whose
  original size was 70000 bytes.\<close>

definition usageExample :: "string \<Rightarrow> string \<Rightarrow> data" where
  "usageExample reqBody resBody =
     noData\<lparr>requestBody := Some (Val reqBody), requestBodyTruncated := Some False,
       responseBody := Some (Val resBody), responseBodyTruncated := Some True,
       responseBodySize := Some 70000\<rparr>"

section \<open>Notions the properties are stated with\<close>

subsection \<open>Selection\<close>

text \<open>A record passes the filters when \<open>queryRequests\<close> would select it from a store
  that holds it alone.\<close>

definition keeps :: "runtime \<Rightarrow> filters \<Rightarrow> entry \<Rightarrow> bool" where
  "keeps rt f e = (selectRecords rt f [e] = [e])"

text \<open>No filter is given; a limit may be.\<close>

definition unfiltered :: "filters \<Rightarrow> bool" where
  "unfiltered f = (f\<lparr>f_limit := None\<rparr> = noFilters)"

text \<open>A runtime whose pattern engine rejects every source outside the modelled ones and
  whose date parser rejects every string; used where neither is consulted.\<close>

definition noRuntime :: runtime where
  "noRuntime = \<lparr>RegExp_ext = (\<lambda>_. None), Date_getTime = (\<lambda>_. None)\<rparr>"

subsection \<open>Stored state seen through references\<close>

text \<open>The content of the object a property refers to.\<close>

definition derefObject :: "mem \<Rightarrow> addr nullable option \<Rightarrow> plain_object option" where
  "derefObject m r = (case r of Some (Val a) \<Rightarrow> cells (objects m) a | _ \<Rightarrow> None)"

text \<open>A record together with the content of its header and timing objects.\<close>

definition deepRecord ::
  "mem \<Rightarrow> entry \<Rightarrow> entry \<times> plain_object option \<times> plain_object option \<times> plain_object option" where
  "deepRecord m e =
     (e, derefObject m (requestHeaders e), derefObject m (responseHeaders e), derefObject m (timing e))"

definition storedState ::
  "storage \<Rightarrow> mem \<Rightarrow> (entry \<times> plain_object option \<times> plain_object option \<times> plain_object option) list" where
  "storedState st m = map (deepRecord m) (storedRecords st m)"

text \<open>What a caller holding references can do: replace the own properties of a record
  object (\<open>result.x = v\<close>, any number of times), and set a property of a plain object
  (\<open>result.requestHeaders[k] = v\<close>).\<close>

definition overwriteRecord :: "addr \<Rightarrow> entry \<Rightarrow> mem \<Rightarrow> mem" where
  "overwriteRecord r e m = m\<lparr>records := store r e (records m)\<rparr>"

definition setNestedProperty :: "addr \<Rightarrow> string \<Rightarrow> prim \<Rightarrow> mem \<Rightarrow> mem" where
  "setNestedProperty a k v m =
    (case cells (objects m) a of
       None \<Rightarrow> m
     | Some obj \<Rightarrow> m\<lparr>objects := store a (AList.update k v obj) (objects m)\<rparr>)"

subsection \<open>The request handler's record\<close>

text \<open>Every unguarded accessor of the request gives a value.\<close>

definition readable :: "request_view \<Rightarrow> bool" where
  "readable r =
    (case (req_url r, req_method r, req_resourceType r, req_isNavigationRequest r, req_headers r) of
       (Gave u, Gave me, Gave rty, Gave nav, Gave hdr) \<Rightarrow> True
     | _ \<Rightarrow> False)"

text \<open>The data the request handler builds for a readable request.\<close>

definition observedData :: "tracker \<Rightarrow> page_view \<Rightarrow> request_view \<Rightarrow> mem \<Rightarrow> data" where
  "observedData t0 pv r m =
    (let t = t0\<lparr>latestUrl := safePageUrl pv, latestTitle := safePageTitle pv\<rparr>;
         (body, truncated) = safeTruncate (req_postData r) (maxPostDataLength t)
     in (case (req_url r, req_method r, req_resourceType r, req_isNavigationRequest r,
               req_headers r) of
           (Gave u, Gave me, Gave rty, Gave nav, Gave hdr) \<Rightarrow>
              requestData t u me rty nav (safeFrameUrl r) (fst (safeClone hdr (objects m))) body truncated
         | _ \<Rightarrow> noData))"

subsection \<open>Events reaching a store\<close>

text \<open>
  What the trackers of a context do to its store, one event at a time: a request
  starts, a response arrives (its body read), or a request fails. Each event names the
  tracker that handles it and the page as the handler finds it.
\<close>

datatype event =
  RequestEvent tracker page_view request_view int
| ResponseEvent tracker page_view response_view
| FailureEvent tracker page_view request_view

fun deliver :: "event \<Rightarrow> storage \<times> mem \<Rightarrow> storage \<times> mem" where
  "deliver (RequestEvent t pv r now) (st, m) = snd (onRequest t pv r now st m)"
| "deliver (ResponseEvent t pv resp) (st, m) = (st, snd (onResponse t pv resp st m))"
| "deliver (FailureEvent t pv r) (st, m) = (st, snd (onRequestFailed t pv r st m))"

text \<open>The record an identifier denotes is the object at the given address, and its
  response byte counts are both 0.\<close>

definition zeroResponseCounts :: "string \<Rightarrow> addr \<Rightarrow> storage \<times> mem \<Rightarrow> bool" where
  "zeroResponseCounts rid a s =
    (case lookupRecord rid (fst s) (snd s) of
       None \<Rightarrow> False
     | Some (b, e) \<Rightarrow> b = a \<and> responseBodyBytes e = Some 0 \<and> responseBodySize e = Some 0)"

subsection \<open>Timestamps of stored records\<close>

text \<open>
  No stored record is stamped before the epoch. \<open>saveRequest\<close> stamps a record with
  \<open>Date.now()\<close> unless its argument carries a \<open>timestamp\<close>; the request handler,
  its only caller, passes none, and no patch of the tracker carries one.
\<close>

definition noneBeforeEpoch :: "storage \<Rightarrow> mem \<Rightarrow> bool" where
  "noneBeforeEpoch st m = list_all (\<lambda>e. 0 \<le> timestamp e) (storedRecords st m)"

text \<open>The clock reading a request event carries is not before the epoch.\<close>

fun clockAfterEpoch :: "event \<Rightarrow> bool" where
  "clockAfterEpoch (RequestEvent t pv r now) = (0 \<le> now)"
| "clockAfterEpoch (ResponseEvent t pv resp) = True"
| "clockAfterEpoch (FailureEvent t pv r) = True"

subsection \<open>Wildcard search, as a specification\<close>

text \<open>
  The pattern matches a prefix of the text: \<open>*\<close> stands for any run of characters
  other than line terminators, every other pattern character for itself up to case.
\<close>

fun wildcardPrefix :: "string \<Rightarrow> string \<Rightarrow> bool" where
  "wildcardPrefix [] s = True"
| "wildcardPrefix (c # p) s =
    (if c = CHR ''*''
     then list_ex (\<lambda>k. list_all (\<lambda>x. \<not> lineTerminator x) (take k s) \<and> wildcardPrefix p (drop k s))
            [0..<Suc (length s)]
     else (case s of [] \<Rightarrow> False | x # xs \<Rightarrow> canonicalize c = canonicalize x \<and> wildcardPrefix p xs))"

text \<open>The pattern matches somewhere in the text.\<close>

definition wildcardFound :: "string \<Rightarrow> string \<Rightarrow> bool" where
  "wildcardFound p s = list_ex (\<lambda>i. wildcardPrefix p (drop i s)) [0..<Suc (length s)]"

text \<open>The term of the pattern and the piece of source a pattern character becomes.\<close>

definition tokenOf :: "char \<Rightarrow> atom \<times> quant" where
  "tokenOf c = (if c = CHR ''*'' then (AnyChar, Star) else (Lit c, One))"

definition translateChar :: "char \<Rightarrow> string" where
  "translateChar c =
    (if c \<in> set ''.+^${}()|[]'' \<or> c = backslash then [backslash, c]
     else if c = CHR ''*'' then ''.*'' else [c])"

subsection \<open>Concrete inputs\<close>

definition examplePage :: page_view where
  "examplePage = \<lparr>page_url = Gave ''http://x/'', tab_lastTitle = Some (Gave ''x'')\<rparr>"

definition postRequest :: "string \<Rightarrow> request_view" where
  "postRequest b =
     \<lparr>req_identity = 7, req_postData = Gave (Val b), req_url = Gave ''http://x/upload'',
      req_method = Gave ''POST'', req_resourceType = Gave ''fetch'',
      req_isNavigationRequest = Gave False, req_frameUrl = Gave Null,
      req_headers = Gave None, req_failureText = Gave None\<rparr>"

definition textResponse :: "string \<Rightarrow> response_view" where
  "textResponse b =
     \<lparr>resp_request = 7, resp_headers = Gave [], resp_status = Gave 200,
      resp_statusText = Gave ''OK'', resp_text = Gave (Val b), resp_timing = Gave Null\<rparr>"

text \<open>The tracker and the store \<open>attachPage\<close> builds for the first page of the first
  context.\<close>

definition trackerOne :: tracker where
  "trackerOne = \<lparr>t_context = 3, t_page = 5, t_pageId = ''page-1'', t_storage = 0,
     maxBodyLength = 65536, maxPostDataLength = 32768, monitorId = ''monitor-1'',
     disposed = False, latestUrl = ''http://x/'', latestTitle = ''x''\<rparr>"

definition storageOne :: storage where
  "storageOne = \<lparr>requests = [], requestCounter = 0,
     activePageMonitors = [(''page-1'', ''monitor-1'')]\<rparr>"

text \<open>A memory that holds one header object, at address 0.\<close>

definition headerMem :: mem where
  "headerMem = emptyMem\<lparr>objects := snd (alloc [(''accept'', PStr ''text/html'')] emptyHeap)\<rparr>"

definition pngJsRecord :: data where
  "pngJsRecord = noData\<lparr>url := Some ''http://x/a.png.js''\<rparr>"


text \<open>A new store after two records were saved, at times 1000 and 2000.\<close>

definition twoRecords :: "storage \<times> mem" where
  "twoRecords =
    (let (a, st1, m1) = saveRequest 1000 noData newStorage emptyMem;
         (b, st2, m2) = saveRequest 2000 noData st1 m1
     in (st2, m2))"

text \<open>The first request the tracker of the first page sees.\<close>

definition exampleRun :: "tracker \<times> storage \<times> mem" where
  "exampleRun = onRequest trackerOne examplePage (postRequest ''body'') 1000 storageOne emptyMem"

section \<open>Properties\<close>

subsection \<open>Identifiers and the store invariant\<close>

declare showNat.simps [simp del]

lemma of_char_digitChar: "d < 10 \<Longrightarrow> (of_char (digitChar d) :: nat) = 48 + d"
  by (simp add: digitChar_def)

lemma readNat_showNat: "readNat (showNat n) = n"
proof (induction n rule: showNat.induct)
  case (1 n)
  show ?case
  proof (cases "n < 10")
    case True
    then show ?thesis by (simp add: showNat.simps[of n] readNat_def of_char_digitChar)
  next
    case False
    then have "readNat (showNat (n div 10)) = n div 10" using 1 by simp
    then show ?thesis using False
      by (simp add: showNat.simps[of n] readNat_def of_char_digitChar)
  qed
qed

lemma showNat_inj: "showNat a = showNat b \<Longrightarrow> a = b"
  by (metis readNat_showNat)

lemma store_inv_new: "store_inv newStorage emptyMem"
  by (simp add: store_inv_def newStorage_def)

lemma nextRequestId_fresh:
  assumes "store_inv st m"
  shows "nextRequestId st \<notin> fst ` set (requests st)"
proof
  assume "nextRequestId st \<in> fst ` set (requests st)"
  then obtain a where "(nextRequestId st, a) \<in> set (requests st)" by auto
  with assms obtain n where "n \<le> requestCounter st" "nextRequestId st = ''req-'' @ showNat n"
    by (fastforce simp: store_inv_def slot_ok_def list_all_iff)
  then have "showNat (Suc (requestCounter st)) = showNat n" by (simp add: nextRequestId_def)
  then have "Suc (requestCounter st) = n" by (rule showNat_inj)
  with \<open>n \<le> requestCounter st\<close> show False by simp
qed

lemma update_fresh: "k \<notin> fst ` set xs \<Longrightarrow> AList.update k v xs = xs @ [(k, v)]"
  by (induction xs) auto

lemma map_filter_append: "List.map_filter f (xs @ ys) = List.map_filter f xs @ List.map_filter f ys"
  by (simp add: List.map_filter_def)

lemma map_filter_cong_set:
  "(\<And>x. x \<in> set xs \<Longrightarrow> f x = g x) \<Longrightarrow> List.map_filter f xs = List.map_filter g xs"
  by (induction xs) (auto simp: List.map_filter_def)

lemma saveRequest_unfold:
  "saveRequest now d st m =
    (brk (records m),
     st\<lparr>requests := AList.update (nextRequestId st) (brk (records m)) (requests st),
        requestCounter := Suc (requestCounter st)\<rparr>,
     m\<lparr>records := (records m)\<lparr>cells := (cells (records m))(brk (records m) \<mapsto> savedRecord now d st),
                              brk := Suc (brk (records m))\<rparr>\<rparr>)"
  by (simp add: saveRequest_def alloc_def savedRecord_def Let_def)

lemma storedRecords_saveRequest:
  assumes "store_inv st m" and "saveRequest now d st m = (a, st1, m1)"
  shows "storedRecords st1 m1 = storedRecords st m @ [savedRecord now d st]"
proof -
  have fresh: "nextRequestId st \<notin> fst ` set (requests st)"
    using assms(1) by (rule nextRequestId_fresh)
  have old: "\<And>x. x \<in> set (requests st) \<Longrightarrow>
      (case x of (k, a) \<Rightarrow> cells (records m1) a) = (case x of (k, a) \<Rightarrow> cells (records m) a)"
    using assms by (auto simp: store_inv_def slot_ok_def list_all_iff saveRequest_unfold)
  show ?thesis
    using assms(2) fresh map_filter_cong_set[OF old]
    by (auto simp: saveRequest_unfold storedRecords_def update_fresh map_filter_append)
       (simp add: List.map_filter_def)
qed

lemma store_inv_saveRequest:
  assumes "store_inv st m" and "saveRequest now d st m = (a, st1, m1)"
  shows "store_inv st1 m1"
proof -
  have fresh: "nextRequestId st \<notin> fst ` set (requests st)"
    using assms(1) by (rule nextRequestId_fresh)
  have st1: "requests st1 = requests st @ [(nextRequestId st, brk (records m))]"
    and cnt: "requestCounter st1 = Suc (requestCounter st)"
    and brk1: "brk (records m1) = Suc (brk (records m))"
    and cells1: "cells (records m1) = (cells (records m))(brk (records m) \<mapsto> savedRecord now d st)"
    using assms(2) fresh by (auto simp: saveRequest_unfold update_fresh)
  have new: "slot_ok st1 m1 (nextRequestId st, brk (records m))"
    unfolding slot_ok_def cnt brk1 cells1
    by (auto simp: nextRequestId_def intro: exI[of _ "Suc (requestCounter st)"])
  have old: "slot_ok st1 m1 x" if "slot_ok st m x" for x
  proof -
    from that obtain n where "0 < n" "n \<le> requestCounter st" "fst x = ''req-'' @ showNat n"
      and b: "snd x < brk (records m)" "cells (records m) (snd x) \<noteq> None"
      unfolding slot_ok_def by blast
    then have "\<exists>n. 0 < n \<and> n \<le> Suc (requestCounter st) \<and> fst x = ''req-'' @ showNat n"
      by (intro exI[of _ n]) simp
    with b show ?thesis unfolding slot_ok_def cnt brk1 cells1 by simp
  qed
  show ?thesis
    using assms(1) new old unfolding store_inv_def st1 by (simp add: list_all_iff)
qed

lemma byteLength_replicate_ascii:
  "(of_char c :: nat) < 128 \<Longrightarrow> byteLength (replicate n c) = n"
  by (simp add: byteLength_def sum_list_replicate)

subsection \<open>getUsage\<close>

lemma fold_usageStep_requestBytes:
  "requestBytes (fold usageStep es u) = requestBytes u + (\<Sum>e\<leftarrow>es. orZero (requestBodyBytes e))"
  by (induction es arbitrary: u) (simp_all add: usageStep_def Let_def)

lemma fold_usageStep_requestOriginalBytes:
  "requestOriginalBytes (fold usageStep es u) =
     requestOriginalBytes u + (\<Sum>e\<leftarrow>es. nullish (requestBodySize e) (orZero (requestBodyBytes e)))"
  by (induction es arbitrary: u) (simp_all add: usageStep_def Let_def)

lemma fold_usageStep_responseBytes:
  "responseBytes (fold usageStep es u) = responseBytes u + (\<Sum>e\<leftarrow>es. orZero (responseBodyBytes e))"
  by (induction es arbitrary: u) (simp_all add: usageStep_def Let_def)

lemma fold_usageStep_responseOriginalBytes:
  "responseOriginalBytes (fold usageStep es u) =
     responseOriginalBytes u + (\<Sum>e\<leftarrow>es. nullish (responseBodySize e) (orZero (responseBodyBytes e)))"
  by (induction es arbitrary: u) (simp_all add: usageStep_def Let_def)

lemma fold_usageStep_requestTruncated:
  "requestTruncated (fold usageStep es u) =
     requestTruncated u + int (length (filter (\<lambda>e. requestBodyTruncated e = Some True) es))"
  by (induction es arbitrary: u) (simp_all add: usageStep_def Let_def)

lemma fold_usageStep_responseTruncated:
  "responseTruncated (fold usageStep es u) =
     responseTruncated u + int (length (filter (\<lambda>e. responseBodyTruncated e = Some True) es))"
  by (induction es arbitrary: u) (simp_all add: usageStep_def Let_def)

lemmas fold_usageStep =
  fold_usageStep_requestBytes fold_usageStep_requestOriginalBytes fold_usageStep_responseBytes
  fold_usageStep_responseOriginalBytes fold_usageStep_requestTruncated
  fold_usageStep_responseTruncated

lemma getUsage_fields:
  "requestBytes (getUsage st m) = (\<Sum>e\<leftarrow>storedRecords st m. orZero (requestBodyBytes e))"
  "requestOriginalBytes (getUsage st m) =
     (\<Sum>e\<leftarrow>storedRecords st m. nullish (requestBodySize e) (orZero (requestBodyBytes e)))"
  "responseBytes (getUsage st m) = (\<Sum>e\<leftarrow>storedRecords st m. orZero (responseBodyBytes e))"
  "responseOriginalBytes (getUsage st m) =
     (\<Sum>e\<leftarrow>storedRecords st m. nullish (responseBodySize e) (orZero (responseBodyBytes e)))"
  "requestTruncated (getUsage st m) =
     int (length (filter (\<lambda>e. requestBodyTruncated e = Some True) (storedRecords st m)))"
  "responseTruncated (getUsage st m) =
     int (length (filter (\<lambda>e. responseBodyTruncated e = Some True) (storedRecords st m)))"
  "estimatedMemoryBytes (getUsage st m) = requestBytes (getUsage st m) + responseBytes (getUsage st m)"
  "totalRequests (getUsage st m) = int (length (requests st))"
  by (simp_all add: getUsage_def Let_def fold_usageStep zeroUsage_def)

lemma savedRecord_usageExample:
  assumes "byteLength reqBody = 100" "byteLength resBody = 65536"
  shows "requestBodyBytes (savedRecord now (usageExample reqBody resBody) st) = Some 100"
    "requestBodySize (savedRecord now (usageExample reqBody resBody) st) = Some 100"
    "responseBodyBytes (savedRecord now (usageExample reqBody resBody) st) = Some 65536"
    "responseBodySize (savedRecord now (usageExample reqBody resBody) st) = Some 70000"
    "requestBodyTruncated (savedRecord now (usageExample reqBody resBody) st) = Some False"
    "responseBodyTruncated (savedRecord now (usageExample reqBody resBody) st) = Some True"
proof -
  have ne: "reqBody \<noteq> []" "resBody \<noteq> []"
    using assms by (auto simp: byteLength_def)
  show "requestBodyBytes (savedRecord now (usageExample reqBody resBody) st) = Some 100"
    "requestBodySize (savedRecord now (usageExample reqBody resBody) st) = Some 100"
    "responseBodyBytes (savedRecord now (usageExample reqBody resBody) st) = Some 65536"
    "responseBodySize (savedRecord now (usageExample reqBody resBody) st) = Some 70000"
    "requestBodyTruncated (savedRecord now (usageExample reqBody resBody) st) = Some False"
    "responseBodyTruncated (savedRecord now (usageExample reqBody resBody) st) = Some True"
    using assms ne
    by (simp_all add: savedRecord_def usageExample_def noData_def noProps_def deriveByteFields_def
        spreadRecord_def bodyBytes_def Let_def props.defs data.defs entry.defs)
qed

text \<open>
  When one \<open>saveRequest\<close> call is given the request body, the captured response
  body, its flag and its original size of 70000 bytes, the report grows by 100 request
  bytes, 65536 response bytes, 70000 original response bytes and one truncated response.
\<close>

lemma getUsage_after_saveRequest:
  assumes "store_inv st m"
    and "byteLength reqBody = 100" and "byteLength resBody = 65536"
    and "saveRequest now (usageExample reqBody resBody) st m = (a, st1, m1)"
  shows "requestBytes (getUsage st1 m1) = requestBytes (getUsage st m) + 100"
    and "responseBytes (getUsage st1 m1) = responseBytes (getUsage st m) + 65536"
    and "responseOriginalBytes (getUsage st1 m1) = responseOriginalBytes (getUsage st m) + 70000"
    and "responseTruncated (getUsage st1 m1) = responseTruncated (getUsage st m) + 1"
    and "requestTruncated (getUsage st1 m1) = requestTruncated (getUsage st m)"
proof -
  have recs: "storedRecords st1 m1 = storedRecords st m @ [savedRecord now (usageExample reqBody resBody) st]"
    using assms(1,4) by (rule storedRecords_saveRequest)
  note ex = savedRecord_usageExample[OF assms(2,3), of now st]
  show "requestBytes (getUsage st1 m1) = requestBytes (getUsage st m) + 100"
    and "responseBytes (getUsage st1 m1) = responseBytes (getUsage st m) + 65536"
    and "responseOriginalBytes (getUsage st1 m1) = responseOriginalBytes (getUsage st m) + 70000"
    and "responseTruncated (getUsage st1 m1) = responseTruncated (getUsage st m) + 1"
    and "requestTruncated (getUsage st1 m1) = requestTruncated (getUsage st m)"
    by (simp_all add: getUsage_fields recs ex orZero_def nullish_def)
qed

lemma getUsage_single:
  "storedRecords st m = [e] \<Longrightarrow> requests st = [x] \<Longrightarrow>
   getUsage st m = \<lparr>totalRequests = 1,
      requestBytes = orZero (requestBodyBytes e),
      requestOriginalBytes = nullish (requestBodySize e) (orZero (requestBodyBytes e)),
      requestTruncated = (if requestBodyTruncated e = Some True then 1 else 0),
      responseBytes = orZero (responseBodyBytes e),
      responseOriginalBytes = nullish (responseBodySize e) (orZero (responseBodyBytes e)),
      responseTruncated = (if responseBodyTruncated e = Some True then 1 else 0),
      estimatedMemoryBytes = orZero (requestBodyBytes e) + orZero (responseBodyBytes e)\<rparr>"
  by (simp add: getUsage_def usageStep_def zeroUsage_def Let_def)

subsection \<open>Limits configuration\<close>

text \<open>
  Claim C9. An override is parsed as a positive number and rounded to the nearest
  integer kilobyte; a positive override below one half rounds to 0 kilobytes and is
  stored, so the limit becomes 0 bytes. Here the request limit is configured as a
  quarter of a kilobyte on the default limits.
\<close>

theorem configureNetworkLimits_quarter_kilobyte:
  "configureNetworkLimits
     \<lparr>maxRequestBodyKB = Some (Val (Finite (1 / 4))), maxResponseBodyKB = None\<rparr> DEFAULT_LIMITS
   = \<lparr>maxRequestBodyBytes = Finite 0, maxResponseBodyBytes = Finite 65536\<rparr>"
  by (simp add: configureNetworkLimits_def parseLimitOption_def Math_round_def timesKB_def
      DEFAULT_LIMITS_def KB_def)

subsection \<open>queryRequests\<close>

lemma alloc_simps [simp]:
  "fst (alloc v h) = brk h"
  "brk (snd (alloc v h)) = Suc (brk h)"
  "cells (snd (alloc v h)) = (cells h)(brk h \<mapsto> v)"
  by (simp_all add: alloc_def)

lemma copyAll_brk: "brk (snd (copyAll es h)) = brk h + length es"
  by (induction es arbitrary: h) (simp_all add: split_beta)

lemma copyAll_old: "a < brk h \<Longrightarrow> cells (snd (copyAll es h)) a = cells h a"
  by (induction es arbitrary: h) (simp_all add: split_beta)

lemma copyAll_addrs: "fst (copyAll es h) = [brk h ..< brk h + length es]"
  by (induction es arbitrary: h) (simp_all add: split_beta upt_rec)

lemma copyAll_values: "map (cells (snd (copyAll es h))) (fst (copyAll es h)) = map Some es"
  by (induction es arbitrary: h) (simp_all add: split_beta copyAll_old)

lemma filterPageId_filter: "filterPageId f rs = filter (\<lambda>e. filterPageId f [e] = [e]) rs"
  by (auto simp: filterPageId_def intro: filter_cong)

lemma filterUrlPattern_filter: "filterUrlPattern rt f rs = filter (\<lambda>e. filterUrlPattern rt f [e] = [e]) rs"
  by (auto simp: filterUrlPattern_def split: option.splits intro: filter_cong)

lemma filterMethod_filter: "filterMethod f rs = filter (\<lambda>e. filterMethod f [e] = [e]) rs"
  by (auto simp: filterMethod_def split: option.splits intro: filter_cong)

lemma filterStatus_filter: "filterStatus f rs = filter (\<lambda>e. filterStatus f [e] = [e]) rs"
  by (auto simp: filterStatus_def split: option.splits intro: filter_cong)

lemma filterResourceType_filter: "filterResourceType f rs = filter (\<lambda>e. filterResourceType f [e] = [e]) rs"
  by (auto simp: filterResourceType_def intro: filter_cong)

lemma filterSince_filter: "filterSince rt f rs = filter (\<lambda>e. filterSince rt f [e] = [e]) rs"
  by (auto simp: filterSince_def split: option.splits intro: filter_cong)

lemma filterSearch_filter: "filterSearch rt f rs = filter (\<lambda>e. filterSearch rt f [e] = [e]) rs"
  by (auto simp: filterSearch_def split: option.splits intro: filter_cong)

lemma filter_single: "(filter P [e] = [e]) = P e"
  by simp

lemma sort_single [simp]: "sortByTimestampDesc [e] = [e]"
  by (simp add: sortByTimestampDesc_def)

lemma selectRecords_filter:
  "selectRecords rt f rs = sortByTimestampDesc (filter (keeps rt f) rs)"
proof -
  let ?P1 = "\<lambda>e. filterPageId f [e] = [e]"
  let ?P2 = "\<lambda>e. filterUrlPattern rt f [e] = [e]"
  let ?P3 = "\<lambda>e. filterMethod f [e] = [e]"
  let ?P4 = "\<lambda>e. filterStatus f [e] = [e]"
  let ?P5 = "\<lambda>e. filterResourceType f [e] = [e]"
  let ?P6 = "\<lambda>e. filterSince rt f [e] = [e]"
  let ?P7 = "\<lambda>e. filterSearch rt f [e] = [e]"
  have chain: "filterSearch rt f (filterSince rt f (filterResourceType f (filterStatus f
         (filterMethod f (filterUrlPattern rt f (filterPageId f xs))))))
      = filter (\<lambda>e. ?P1 e \<and> ?P2 e \<and> ?P3 e \<and> ?P4 e \<and> ?P5 e \<and> ?P6 e \<and> ?P7 e) xs" for xs
    apply (subst filterSearch_filter, subst filterSince_filter, subst filterResourceType_filter,
        subst filterStatus_filter, subst filterMethod_filter, subst filterUrlPattern_filter,
        subst filterPageId_filter)
    apply (simp only: filter_filter)
    apply (rule filter_cong[OF refl])
    apply blast
    done
  have k: "keeps rt f e = (?P1 e \<and> ?P2 e \<and> ?P3 e \<and> ?P4 e \<and> ?P5 e \<and> ?P6 e \<and> ?P7 e)" for e
    unfolding keeps_def selectRecords_def chain[of "[e]"]
    by (cases "?P1 e \<and> ?P2 e \<and> ?P3 e \<and> ?P4 e \<and> ?P5 e \<and> ?P6 e \<and> ?P7 e")
       (simp_all add: sortByTimestampDesc_def)
  show ?thesis
    unfolding selectRecords_def chain[of rs] k ..
qed

lemma keeps_unfiltered: "unfiltered f \<Longrightarrow> keeps rt f e"
proof -
  assume "unfiltered f"
  then have "f_pageId f = None" "f_urlPattern f = None" "f_method f = None" "f_status f = None"
    "f_resourceType f = None" "f_since f = None" "f_search f = None"
    unfolding unfiltered_def noFilters_def
    by (cases f; simp)+
  then show ?thesis
    by (simp add: keeps_def selectRecords_def filterPageId_def filterUrlPattern_def filterMethod_def
        filterStatus_def filterResourceType_def filterSince_def filterSearch_def truthyString_def)
qed

lemma sorted_desc: "sorted_wrt (\<lambda>a b. timestamp a \<ge> timestamp b) (sortByTimestampDesc rs)"
proof -
  have "sorted (map (\<lambda>e. - timestamp e) (sort_key (\<lambda>e. - timestamp e) rs))"
    by (rule sorted_sort_key)
  then show ?thesis
    by (simp add: sortByTimestampDesc_def sorted_map sorted_wrt_iff_nth_less)
qed

lemma length_storedRecords: "store_inv st m \<Longrightarrow> length (storedRecords st m) = length (requests st)"
proof -
  assume "store_inv st m"
  then have "\<forall>x\<in>set (requests st). (case x of (k, a) \<Rightarrow> cells (records m) a) \<noteq> None"
    by (auto simp: store_inv_def slot_ok_def list_all_iff)
  then have "filter (\<lambda>x. (case x of (k, a) \<Rightarrow> cells (records m) a) \<noteq> None) (requests st) = requests st"
    by (simp add: filter_id_conv)
  then show ?thesis
    by (simp add: storedRecords_def List.map_filter_def)
qed

lemma queryRequests_unfold:
  "queryRequests rt f st m =
    (\<lparr>total = length (selectRecords rt f (storedRecords st m)),
      results = fst (copyAll (applyLimit (f_limit f) (selectRecords rt f (storedRecords st m))) (records m))\<rparr>,
     m\<lparr>records := snd (copyAll (applyLimit (f_limit f) (selectRecords rt f (storedRecords st m))) (records m))\<rparr>)"
  by (simp add: queryRequests_def Let_def split_beta)

lemma queryRequests_contents:
  assumes "store_inv st m" and "queryRequests rt f st m = (q, m1)"
  shows "total q = length (filter (keeps rt f) (storedRecords st m))
    \<and> map (cells (records m1)) (results q)
        = map Some (applyLimit (f_limit f) (sortByTimestampDesc (filter (keeps rt f) (storedRecords st m))))
    \<and> sorted_wrt (\<lambda>a b. timestamp a \<ge> timestamp b)
        (sortByTimestampDesc (filter (keeps rt f) (storedRecords st m)))
    \<and> mset (sortByTimestampDesc (filter (keeps rt f) (storedRecords st m)))
        = mset (filter (keeps rt f) (storedRecords st m))
    \<and> (unfiltered f \<longrightarrow> filter (keeps rt f) (storedRecords st m) = storedRecords st m
          \<and> total q = length (requests st))
    \<and> (f_limit f = None \<longrightarrow> length (results q) = total q)
    \<and> (\<forall>l. f_limit f = Some l \<and> l > 0 \<longrightarrow>
          length (results q) \<le> nat l \<and> length (results q) = min (nat l) (total q))"
proof -
  let ?sel = "filter (keeps rt f) (storedRecords st m)"
  have q: "total q = length (sortByTimestampDesc ?sel)"
    and r: "results q = fst (copyAll (applyLimit (f_limit f) (sortByTimestampDesc ?sel)) (records m))"
    and m1: "records m1 = snd (copyAll (applyLimit (f_limit f) (sortByTimestampDesc ?sel)) (records m))"
    using assms(2) by (auto simp: queryRequests_unfold selectRecords_filter)
  have len: "length (sortByTimestampDesc ?sel) = length ?sel"
    by (simp add: sortByTimestampDesc_def)
  have vals: "map (cells (records m1)) (results q)
      = map Some (applyLimit (f_limit f) (sortByTimestampDesc ?sel))"
    unfolding r m1 by (rule copyAll_values)
  have lr: "length (results q) = length (applyLimit (f_limit f) (sortByTimestampDesc ?sel))"
    unfolding r by (simp add: copyAll_addrs)
  have unf: "unfiltered f \<longrightarrow> ?sel = storedRecords st m \<and> total q = length (requests st)"
    using assms(1) q len by (auto simp: keeps_unfiltered length_storedRecords)
  show ?thesis
    using q len vals lr unf sorted_desc[of ?sel]
    by (auto simp: applyLimit_def sortByTimestampDesc_def)
qed

lemma savedRecord_timestamp [simp]:
  "d_timestamp d = None \<Longrightarrow> timestamp (savedRecord now d st) = now"
  by (simp add: savedRecord_def deriveByteFields_def spreadRecord_def Let_def entry.defs props.defs)

lemma noData_plain [simp]: "d_timestamp noData = None" "d_id noData = None"
  by (simp_all add: noData_def data.defs props.defs)

lemma twoRecords_facts:
  "store_inv (fst twoRecords) (snd twoRecords)"
  "map timestamp (storedRecords (fst twoRecords) (snd twoRecords)) = [1000, 2000]"
  "length (requests (fst twoRecords)) = 2"
proof -
  obtain a st1 m1 where s1: "saveRequest 1000 noData newStorage emptyMem = (a, st1, m1)"
    by (cases "saveRequest 1000 noData newStorage emptyMem")
  obtain b st2 m2 where s2: "saveRequest 2000 noData st1 m1 = (b, st2, m2)"
    by (cases "saveRequest 2000 noData st1 m1")
  have tw: "twoRecords = (st2, m2)" by (simp add: twoRecords_def s1 s2)
  have i1: "store_inv st1 m1" using store_inv_new s1 by (rule store_inv_saveRequest)
  have i2: "store_inv st2 m2" using i1 s2 by (rule store_inv_saveRequest)
  have r0: "storedRecords newStorage emptyMem = []"
    by (simp add: storedRecords_def newStorage_def List.map_filter_def)
  have r1: "storedRecords st1 m1 = [savedRecord 1000 noData newStorage]"
    using storedRecords_saveRequest[OF store_inv_new s1] r0 by simp
  have r2: "storedRecords st2 m2 = [savedRecord 1000 noData newStorage, savedRecord 2000 noData st1]"
    using storedRecords_saveRequest[OF i1 s2] r1 by simp
  show "store_inv (fst twoRecords) (snd twoRecords)" using i2 by (simp add: tw)
  show "map timestamp (storedRecords (fst twoRecords) (snd twoRecords)) = [1000, 2000]"
    by (simp add: tw r2)
  show "length (requests (fst twoRecords)) = 2"
    using length_storedRecords[OF i2] r2 by (simp add: tw)
qed

lemma unfiltered_limit: "unfiltered (noFilters\<lparr>f_limit := l\<rparr>)"
  by (simp add: unfiltered_def noFilters_def)

text \<open>
  Claim C6. \<open>queryRequests\<close> reports as total the number of stored records that pass
  the filters and returns copies of those records sorted by timestamp, most recent first;
  with no filter these are all stored records and the total is the size of the store.
  A positive limit leaves the total as it is and cuts the result list to at most that
  many entries.
\<close>

theorem queryRequests_sorted_total_limit:
  assumes "store_inv st m" and "queryRequests rt f st m = (q, m1)"
  shows "total q = length (filter (keeps rt f) (storedRecords st m))
    \<and> map (cells (records m1)) (results q)
        = map Some (applyLimit (f_limit f) (sortByTimestampDesc (filter (keeps rt f) (storedRecords st m))))
    \<and> sorted_wrt (\<lambda>a b. timestamp a \<ge> timestamp b)
        (sortByTimestampDesc (filter (keeps rt f) (storedRecords st m)))
    \<and> mset (sortByTimestampDesc (filter (keeps rt f) (storedRecords st m)))
        = mset (filter (keeps rt f) (storedRecords st m))
    \<and> (unfiltered f \<longrightarrow> filter (keeps rt f) (storedRecords st m) = storedRecords st m
          \<and> total q = length (requests st))
    \<and> (f_limit f = None \<longrightarrow> length (results q) = total q)
    \<and> (\<forall>l. f_limit f = Some l \<and> l > 0 \<longrightarrow>
          length (results q) \<le> nat l \<and> length (results q) = min (nat l) (total q))"
  using assms by (rule queryRequests_contents)

theorem queryRequests_sorted_total_limit_witness:
  "store_inv (fst twoRecords) (snd twoRecords)
   \<and> total (fst (queryRequests noRuntime (noFilters\<lparr>f_limit := Some 1\<rparr>) (fst twoRecords) (snd twoRecords))) = 2
   \<and> length (results (fst (queryRequests noRuntime (noFilters\<lparr>f_limit := Some 1\<rparr>) (fst twoRecords) (snd twoRecords)))) = 1"
proof -
  let ?f = "noFilters\<lparr>f_limit := Some 1\<rparr>"
  let ?q = "queryRequests noRuntime ?f (fst twoRecords) (snd twoRecords)"
  have q: "?q = (fst ?q, snd ?q)" by simp
  have l: "f_limit ?f = Some 1 \<and> (1::int) > 0" by simp
  have u: "unfiltered ?f" by (rule unfiltered_limit)
  note th = queryRequests_sorted_total_limit[OF twoRecords_facts(1) q]
  from th u have t: "total (fst ?q) = length (requests (fst twoRecords))" by blast
  from th l have "length (results (fst ?q)) = min (nat 1) (total (fst ?q))" by blast
  then show ?thesis using t twoRecords_facts(1,3) by simp
qed

subsection \<open>The since filter\<close>

lemma keeps_since_only:
  "keeps rt (noFilters\<lparr>f_since := Some v, f_limit := l\<rparr>) e =
    (if truthySince v then
       (case normalizeTimestamp rt v of None \<Rightarrow> True
        | Some b \<Rightarrow> if b = 0 then True else b \<le> timestamp e)
     else True)"
  by (simp add: keeps_def selectRecords_def filterPageId_def filterUrlPattern_def filterMethod_def
        filterStatus_def filterResourceType_def filterSince_def filterSearch_def truthyString_def
        noFilters_def sortByTimestampDesc_def split: option.splits)

lemma filter_keeps_since_none:
  assumes "\<not> truthySince v \<or> normalizeTimestamp rt v = None \<or> normalizeTimestamp rt v = Some 0"
  shows "filter (keeps rt (noFilters\<lparr>f_since := Some v, f_limit := l\<rparr>)) xs = xs"
proof -
  have "keeps rt (noFilters\<lparr>f_since := Some v, f_limit := l\<rparr>) e" for e
    using assms by (auto simp: keeps_since_only)
  then show ?thesis by simp
qed

lemma filter_keeps_since_parsed:
  assumes "list_all (\<lambda>e. 0 \<le> timestamp e) xs" and "Date_getTime rt [] = None"
    and "normalizeTimestamp rt v = Some b"
  shows "filter (keeps rt (noFilters\<lparr>f_since := Some v, f_limit := l\<rparr>)) xs
           = filter (\<lambda>e. b \<le> timestamp e) xs"
proof (rule filter_cong[OF refl])
  fix e assume "e \<in> set xs"
  then have e: "0 \<le> timestamp e" using assms(1) by (simp add: list_all_iff)
  show "keeps rt (noFilters\<lparr>f_since := Some v, f_limit := l\<rparr>) e = (b \<le> timestamp e)"
  proof (cases v)
    case (SinceNumber n)
    then show ?thesis using assms(3) e
      by (auto simp: keeps_since_only truthySince_def normalizeTimestamp_def)
  next
    case (SinceString s)
    then show ?thesis using assms(2,3) e
      by (auto simp: keeps_since_only truthySince_def normalizeTimestamp_def)
  qed
qed

lemma filter_keeps_since_unparsed:
  assumes "normalizeTimestamp rt v = None"
  shows "filter (keeps rt (noFilters\<lparr>f_since := Some v, f_limit := l\<rparr>)) xs = xs"
  using assms by (intro filter_keeps_since_none) simp

lemma noneBeforeEpoch_twoRecords: "noneBeforeEpoch (fst twoRecords) (snd twoRecords)"
proof -
  have "list_all (\<lambda>t. 0 \<le> t) (map timestamp (storedRecords (fst twoRecords) (snd twoRecords)))"
    unfolding twoRecords_facts(2) by simp
  then show ?thesis by (simp add: noneBeforeEpoch_def list_all_iff)
qed

text \<open>
  Claim C7. On a store none of whose records is stamped before the epoch, with only
  \<open>since\<close> given: when the value is a millisecond number, or a string the runtime
  parses to a time value, exactly the stored records with a timestamp at or after that
  bound are selected, so every record stamped earlier is excluded and every record
  stamped at or after it is included; when the value is a string that does not parse,
  all stored records are selected. The query returns a result in every case. The runtime
  does not parse the empty string, as in JavaScript. The stores the trackers build have
  no record stamped before the epoch (\<open>fold_deliver_keeps_clock\<close> below).
\<close>

theorem since_filter_lower_bound:
  assumes "store_inv st m" and "noneBeforeEpoch st m" and "Date_getTime rt [] = None"
    and "queryRequests rt (noFilters\<lparr>f_since := Some v, f_limit := l\<rparr>) st m = (q, m1)"
  shows "(\<forall>b. v = SinceNumber b \<or> (\<exists>s. v = SinceString s \<and> Date_getTime rt s = Some b) \<longrightarrow>
            map (cells (records m1)) (results q)
              = map Some (applyLimit l (sortByTimestampDesc
                   (filter (\<lambda>e. b \<le> timestamp e) (storedRecords st m))))
            \<and> total q = length (filter (\<lambda>e. b \<le> timestamp e) (storedRecords st m)))
       \<and> ((\<exists>s. v = SinceString s \<and> Date_getTime rt s = None) \<longrightarrow>
            map (cells (records m1)) (results q)
              = map Some (applyLimit l (sortByTimestampDesc (storedRecords st m)))
            \<and> total q = length (storedRecords st m))"
proof -
  let ?f = "noFilters\<lparr>f_since := Some v, f_limit := l\<rparr>"
  have lim: "f_limit ?f = l" by simp
  have main: "total q = length (filter (keeps rt ?f) (storedRecords st m))"
    "map (cells (records m1)) (results q)
        = map Some (applyLimit l (sortByTimestampDesc (filter (keeps rt ?f) (storedRecords st m))))"
    using queryRequests_contents[OF assms(1,4)] unfolding lim by blast+
  have nb: "list_all (\<lambda>e. 0 \<le> timestamp e) (storedRecords st m)"
    using assms(2) by (simp add: noneBeforeEpoch_def)
  show ?thesis
  proof (intro conjI allI impI)
    fix b assume "v = SinceNumber b \<or> (\<exists>s. v = SinceString s \<and> Date_getTime rt s = Some b)"
    then have b: "normalizeTimestamp rt v = Some b"
      by (auto simp: normalizeTimestamp_def)
    have eq: "filter (keeps rt ?f) (storedRecords st m)
        = filter (\<lambda>e. b \<le> timestamp e) (storedRecords st m)"
      using nb assms(3) b by (rule filter_keeps_since_parsed)
    show "map (cells (records m1)) (results q)
        = map Some (applyLimit l (sortByTimestampDesc
             (filter (\<lambda>e. b \<le> timestamp e) (storedRecords st m))))"
      using main(2) unfolding eq .
    show "total q = length (filter (\<lambda>e. b \<le> timestamp e) (storedRecords st m))"
      using main(1) unfolding eq .
  next
    assume "\<exists>s. v = SinceString s \<and> Date_getTime rt s = None"
    then have n: "normalizeTimestamp rt v = None"
      by (auto simp: normalizeTimestamp_def)
    have eq: "filter (keeps rt ?f) (storedRecords st m) = storedRecords st m"
      using n by (rule filter_keeps_since_unparsed)
    show "map (cells (records m1)) (results q)
        = map Some (applyLimit l (sortByTimestampDesc (storedRecords st m)))"
      using main(2) unfolding eq .
    show "total q = length (storedRecords st m)"
      using main(1) unfolding eq .
  qed
qed

theorem since_filter_lower_bound_witness:
  "store_inv (fst twoRecords) (snd twoRecords)
   \<and> noneBeforeEpoch (fst twoRecords) (snd twoRecords)
   \<and> Date_getTime noRuntime [] = None
   \<and> total (fst (queryRequests noRuntime (noFilters\<lparr>f_since := Some (SinceNumber 1500), f_limit := None\<rparr>)
        (fst twoRecords) (snd twoRecords))) = 1
   \<and> total (fst (queryRequests noRuntime (noFilters\<lparr>f_since := Some (SinceNumber 0), f_limit := None\<rparr>)
        (fst twoRecords) (snd twoRecords))) = 2
   \<and> total (fst (queryRequests noRuntime (noFilters\<lparr>f_since := Some (SinceString ''soon''), f_limit := None\<rparr>)
        (fst twoRecords) (snd twoRecords))) = 2"
proof -
  let ?q = "\<lambda>v. queryRequests noRuntime (noFilters\<lparr>f_since := Some v, f_limit := None\<rparr>)
               (fst twoRecords) (snd twoRecords)"
  have q: "?q v = (fst (?q v), snd (?q v))" for v by simp
  have d: "Date_getTime noRuntime [] = None" by (simp add: noRuntime_def)
  have ns: "Date_getTime noRuntime ''soon'' = None" by (simp add: noRuntime_def)
  have c: "length (filter (\<lambda>e. b \<le> timestamp e) (storedRecords (fst twoRecords) (snd twoRecords)))
      = length (filter (\<lambda>t. b \<le> t) (map timestamp (storedRecords (fst twoRecords) (snd twoRecords))))" for b
    by (simp add: filter_map comp_def)
  have len: "length (storedRecords (fst twoRecords) (snd twoRecords)) = 2"
    using arg_cong[OF twoRecords_facts(2), of length] by simp
  note th = since_filter_lower_bound[OF twoRecords_facts(1) noneBeforeEpoch_twoRecords d q]
  from th[of "SinceNumber 1500"] have "total (fst (?q (SinceNumber 1500)))
      = length (filter (\<lambda>e. 1500 \<le> timestamp e) (storedRecords (fst twoRecords) (snd twoRecords)))"
    by simp
  then have t1: "total (fst (?q (SinceNumber 1500))) = 1" unfolding c twoRecords_facts(2) by simp
  from th[of "SinceNumber 0"] have "total (fst (?q (SinceNumber 0)))
      = length (filter (\<lambda>e. 0 \<le> timestamp e) (storedRecords (fst twoRecords) (snd twoRecords)))"
    by simp
  then have t0: "total (fst (?q (SinceNumber 0))) = 2" unfolding c twoRecords_facts(2) by simp
  from th[of "SinceString ''soon''"] ns have t2: "total (fst (?q (SinceString ''soon''))) = 2"
    using len by simp
  show ?thesis using t1 t0 t2 d twoRecords_facts(1) noneBeforeEpoch_twoRecords by simp
qed

lemma char_of_49: "char_of (49::nat) = CHR ''1''"
  by code_simp

lemma showNat_1: "showNat (Suc 0) = ''1''"
  by (simp add: showNat.simps digitChar_def char_of_49)

text \<open>The condition on the stored timestamps cannot be dropped: \<open>if (since)\<close> and
  \<open>if (sinceTs)\<close> take the bound 0 as no bound, so a record that a caller of
  \<open>saveRequest\<close> stamped before the epoch is returned for the bound 0.\<close>

lemma since_zero_record_before_epoch:
  "(let (a, st1, m1) = saveRequest 1000 (noData\<lparr>d_timestamp := Some (- 1)\<rparr>) newStorage emptyMem;
        (q, m2) = queryRequests noRuntime (noFilters\<lparr>f_since := Some (SinceNumber 0)\<rparr>) st1 m1
    in map (map_option timestamp \<circ> cells (records m2)) (results q)) = [Some (- 1)]"
  by (simp add: saveRequest_unfold queryRequests_unfold newStorage_def emptyMem_def emptyHeap_def
      nextRequestId_def showNat_1 storedRecords_def List.map_filter_def selectRecords_def
      filterPageId_def filterUrlPattern_def filterMethod_def
      filterStatus_def filterResourceType_def filterSince_def filterSearch_def truthyString_def
      truthySince_def noFilters_def applyLimit_def sortByTimestampDesc_def split_beta
      savedRecord_def spreadRecord_def deriveByteFields_def noData_def noProps_def
      props.defs data.defs entry.defs Let_def bodyBytes_def)

subsection \<open>Copies returned by queryRequests\<close>

lemma storedState_cong:
  assumes "objects m' = objects m"
    and "\<And>k a. (k, a) \<in> set (requests st) \<Longrightarrow> cells (records m') a = cells (records m) a"
  shows "storedState st m' = storedState st m"
proof -
  have "storedRecords st m' = storedRecords st m"
    unfolding storedRecords_def using assms(2) by (intro map_filter_cong_set) auto
  moreover have "derefObject m' r = derefObject m r" for r
    unfolding derefObject_def assms(1) ..
  then have "deepRecord m' = deepRecord m"
    by (simp add: deepRecord_def fun_eq_iff)
  ultimately show ?thesis by (simp add: storedState_def)
qed

text \<open>
  Claim C5, as amended. Every result of \<open>queryRequests\<close> is a new object, none of the
  objects the store holds, with the property values of the selected record (references
  to header and timing objects included). The query leaves the stored state as it was,
  and replacing the own properties of a result leaves it as it was too.
\<close>

theorem queryRequests_returns_shallow_copies:
  assumes "store_inv st m" and "queryRequests rt f st m = (q, m1)"
  shows "(\<forall>r\<in>set (results q). r \<notin> snd ` set (requests st))
    \<and> map (cells (records m1)) (results q)
        = map Some (applyLimit (f_limit f) (selectRecords rt f (storedRecords st m)))
    \<and> storedState st m1 = storedState st m
    \<and> (\<forall>r\<in>set (results q). \<forall>e. storedState st (overwriteRecord r e m1) = storedState st m1)"
proof -
  let ?lim = "applyLimit (f_limit f) (selectRecords rt f (storedRecords st m))"
  have r: "results q = fst (copyAll ?lim (records m))"
    and m1: "m1 = m\<lparr>records := snd (copyAll ?lim (records m))\<rparr>"
    using assms(2) by (auto simp: queryRequests_unfold)
  have old: "a < brk (records m)" if "(k, a) \<in> set (requests st)" for k a
    using assms(1) that by (auto simp: store_inv_def slot_ok_def list_all_iff)
  have new: "brk (records m) \<le> x" if "x \<in> set (results q)" for x
    using that unfolding r copyAll_addrs by simp
  have fresh: "\<forall>x\<in>set (results q). x \<notin> snd ` set (requests st)"
    using old new by fastforce
  have vals: "map (cells (records m1)) (results q) = map Some ?lim"
    unfolding r m1 by (simp add: copyAll_values)
  have same: "storedState st m1 = storedState st m"
    by (rule storedState_cong) (auto simp: m1 copyAll_old dest: old)
  have mut: "storedState st (overwriteRecord x e m1) = storedState st m1"
    if "x \<in> set (results q)" for x e
  proof (rule storedState_cong)
    show "objects (overwriteRecord x e m1) = objects m1" by (simp add: overwriteRecord_def)
  next
    fix k a assume "(k, a) \<in> set (requests st)"
    then have "a < brk (records m)" by (rule old)
    moreover have "brk (records m) \<le> x" using that by (rule new)
    ultimately show "cells (records (overwriteRecord x e m1)) a = cells (records m1) a"
      by (simp add: overwriteRecord_def store_def)
  qed
  show ?thesis using fresh vals same mut by blast
qed

text \<open>Claim C5 as stated fails for nested objects: the result's \<open>requestHeaders\<close> is
  the stored record's own header object, and setting a property of it changes what the
  store holds.\<close>

theorem nested_headers_shared_with_store:
  "(let (a, st1, m1) = saveRequest 1000 (noData\<lparr>requestHeaders := Some (Val 0)\<rparr>) newStorage headerMem;
        (q, m2) = queryRequests noRuntime noFilters st1 m1
    in map (map_option requestHeaders \<circ> cells (records m2)) (results q) = [Some (Some (Val 0))]
       \<and> map (fst \<circ> snd) (storedState st1 m2) = [Some [(''accept'', PStr ''text/html'')]]
       \<and> map (fst \<circ> snd) (storedState st1 (setNestedProperty 0 ''accept'' (PStr ''changed'') m2))
            = [Some [(''accept'', PStr ''changed'')]])"
  by (simp add: saveRequest_unfold queryRequests_unfold newStorage_def emptyMem_def emptyHeap_def
      headerMem_def nextRequestId_def showNat_1 storedRecords_def List.map_filter_def selectRecords_def
      filterPageId_def filterUrlPattern_def filterMethod_def
      filterStatus_def filterResourceType_def filterSince_def filterSearch_def truthyString_def
      noFilters_def applyLimit_def sortByTimestampDesc_def split_beta
      savedRecord_def spreadRecord_def deriveByteFields_def noData_def noProps_def
      props.defs data.defs entry.defs Let_def bodyBytes_def storedState_def deepRecord_def
      derefObject_def setNestedProperty_def store_def)

theorem queryRequests_returns_shallow_copies_witness:
  "store_inv (fst twoRecords) (snd twoRecords)
   \<and> storedState (fst twoRecords) (snd (queryRequests noRuntime noFilters (fst twoRecords) (snd twoRecords)))
       = storedState (fst twoRecords) (snd twoRecords)
   \<and> hd (results (fst (queryRequests noRuntime noFilters (fst twoRecords) (snd twoRecords))))
       \<in> set (results (fst (queryRequests noRuntime noFilters (fst twoRecords) (snd twoRecords))))
   \<and> storedState (fst twoRecords)
        (overwriteRecord (hd (results (fst (queryRequests noRuntime noFilters (fst twoRecords) (snd twoRecords)))))
           (savedRecord 0 pngJsRecord newStorage)
           (snd (queryRequests noRuntime noFilters (fst twoRecords) (snd twoRecords))))
      = storedState (fst twoRecords) (snd (queryRequests noRuntime noFilters (fst twoRecords) (snd twoRecords)))"
proof -
  let ?q = "queryRequests noRuntime noFilters (fst twoRecords) (snd twoRecords)"
  have q: "?q = (fst ?q, snd ?q)" by simp
  have u: "unfiltered noFilters" by (simp add: unfiltered_def noFilters_def)
  have fl: "f_limit noFilters = None" by (simp add: noFilters_def)
  note qc = queryRequests_contents[OF twoRecords_facts(1) q]
  from qc u have "total (fst ?q) = length (requests (fst twoRecords))" by blast
  moreover from qc fl have "length (results (fst ?q)) = total (fst ?q)" by blast
  ultimately have "length (results (fst ?q)) = 2"
    using twoRecords_facts(3) by simp
  then have ne: "results (fst ?q) \<noteq> []" by auto
  then have hd: "hd (results (fst ?q)) \<in> set (results (fst ?q))" by simp
  show ?thesis
    using queryRequests_returns_shallow_copies[OF twoRecords_facts(1) q] hd twoRecords_facts(1)
    by blast
qed

subsection \<open>The page tracker and the store\<close>

lemma slot_ok_objects [simp]: "slot_ok st (m\<lparr>objects := oh\<rparr>) = slot_ok st m"
  by (simp add: slot_ok_def fun_eq_iff)

lemma slot_ok_symbol [simp]: "slot_ok st (m\<lparr>requestIdSymbol := s\<rparr>) = slot_ok st m"
  by (simp add: slot_ok_def fun_eq_iff)

lemma store_inv_objects [simp]: "store_inv st (m\<lparr>objects := oh\<rparr>) = store_inv st m"
  by (simp add: store_inv_def)

lemma store_inv_symbol [simp]: "store_inv st (m\<lparr>requestIdSymbol := s\<rparr>) = store_inv st m"
  by (simp add: store_inv_def)

lemma lookupRecord_objects [simp]: "lookupRecord k st (m\<lparr>objects := oh\<rparr>) = lookupRecord k st m"
  by (simp add: lookupRecord_def cong: option.case_cong)

lemma lookupRecord_symbol [simp]: "lookupRecord k st (m\<lparr>requestIdSymbol := s\<rparr>) = lookupRecord k st m"
  by (simp add: lookupRecord_def cong: option.case_cong)

lemma savedRecord_id [simp]: "d_id d = None \<Longrightarrow> id' (savedRecord now d st) = nextRequestId st"
  by (simp add: savedRecord_def deriveByteFields_def spreadRecord_def Let_def entry.defs props.defs)

lemma lookupRecord_saveRequest:
  assumes "store_inv st m" and "saveRequest now d st m = (a, st1, m1)"
  shows "lookupRecord (nextRequestId st) st1 m1 = Some (brk (records m), savedRecord now d st)"
    and "a = brk (records m)"
proof -
  have fresh: "nextRequestId st \<notin> fst ` set (requests st)"
    using assms(1) by (rule nextRequestId_fresh)
  then have "map_of (requests st) (nextRequestId st) = None"
    by (simp add: map_of_eq_None_iff)
  then show "lookupRecord (nextRequestId st) st1 m1 = Some (brk (records m), savedRecord now d st)"
    using assms(2) fresh
    by (auto simp: saveRequest_unfold update_fresh lookupRecord_def map_add_def split: option.splits)
  show "a = brk (records m)" using assms(2) by (simp add: saveRequest_unfold)
qed

lemma onRequest_readable:
  assumes "readable r"
  shows "onRequest t pv r now st m =
    (let m0 = m\<lparr>objects := snd (safeClone (case req_headers r of Gave hdr \<Rightarrow> hdr | Threw _ \<Rightarrow> None) (objects m))\<rparr>;
         (a, st1, m1) = saveRequest now (observedData t pv r m) st m0
     in (t\<lparr>latestUrl := safePageUrl pv, latestTitle := safePageTitle pv\<rparr>, st1,
         m1\<lparr>requestIdSymbol := (requestIdSymbol m1)(req_identity r := recordId m1 a)\<rparr>))"
  using assms
  by (auto simp: readable_def onRequest_def observedData_def Let_def split_beta
      split: attempt.splits prod.splits)

lemma observedData_fields:
  assumes "readable r"
  shows "d_id (observedData t pv r m) = None"
    "responseBody (observedData t pv r m) = Some Null"
    "responseBodyBytes (observedData t pv r m) = None"
    "responseBodySize (observedData t pv r m) = None"
    "requestBodyBytes (observedData t pv r m) = None"
    "requestBodySize (observedData t pv r m) = None"
    "requestBody (observedData t pv r m) = Some (fst (safeTruncate (req_postData r) (maxPostDataLength t)))"
    "requestBodyTruncated (observedData t pv r m) = Some (snd (safeTruncate (req_postData r) (maxPostDataLength t)))"
    "responseBodyTruncated (observedData t pv r m) = Some False"
  using assms
  by (auto simp: readable_def observedData_def requestData_def noData_def noProps_def Let_def
      split_beta props.defs data.defs split: attempt.splits)

lemma savedRecord_byte_fields:
  "requestBodyBytes d = None \<Longrightarrow> requestBodyBytes (savedRecord now d st) = Some (bodyBytes (requestBody d))"
  "requestBodyBytes d = None \<Longrightarrow> requestBodySize d = None \<Longrightarrow>
     requestBodySize (savedRecord now d st) = Some (bodyBytes (requestBody d))"
  "responseBodyBytes d = None \<Longrightarrow> responseBodyBytes (savedRecord now d st) = Some (bodyBytes (responseBody d))"
  "responseBodyBytes d = None \<Longrightarrow> responseBodySize d = None \<Longrightarrow>
     responseBodySize (savedRecord now d st) = Some (bodyBytes (responseBody d))"
  "requestBodyTruncated (savedRecord now d st) = requestBodyTruncated d"
  "responseBodyTruncated (savedRecord now d st) = responseBodyTruncated d"
  by (simp_all add: savedRecord_def deriveByteFields_def spreadRecord_def Let_def entry.defs props.defs)

lemma updateRequest_keeps_response_bytes:
  assumes "lookupRecord rid st m = Some (a, e)"
    and "responseBodyBytes e = Some b" and "responseBodySize e = Some s"
    and "responseBodyBytes patch = None" and "responseBodySize patch = None"
  shows "\<exists>e'. lookupRecord rid st (snd (updateRequest rid' patch st m)) = Some (a, e')
           \<and> responseBodyBytes e' = Some b \<and> responseBodySize e' = Some s"
proof (cases "lookupRecord rid' st m")
  case None
  then show ?thesis using assms by (simp add: updateRequest_def)
next
  case (Some p)
  obtain a' ex where p: "p = (a', ex)" by (cases p)
  show ?thesis
  proof (cases "a' = a")
    case True
    then have "ex = e" using Some p assms(1)
      by (auto simp: lookupRecord_def split: option.splits)
    then show ?thesis
      using Some p True assms
      by (auto simp: updateRequest_def lookupRecord_def store_def deriveAfterPatch_def
          Object_assign_def assignProps_def orElse_def Let_def split: option.splits)
  next
    case False
    then show ?thesis
      using Some p assms
      by (auto simp: updateRequest_def lookupRecord_def store_def split: option.splits)
  qed
qed

lemma responsePatch_no_bytes [simp]:
  "responseBodyBytes (responsePatch c t h b ct tm d) = None"
  "responseBodySize (responsePatch c t h b ct tm d) = None"
  by (simp_all add: responsePatch_def noData_def noProps_def props.defs data.defs)

lemma onResponse_keeps_response_bytes:
  assumes "lookupRecord rid st m = Some (a, e)"
    and "responseBodyBytes e = Some b" and "responseBodySize e = Some s"
  shows "\<exists>e'. lookupRecord rid st (snd (onResponse t pv resp st m)) = Some (a, e')
           \<and> responseBodyBytes e' = Some b \<and> responseBodySize e' = Some s"
proof -
  have same: "\<exists>e'. lookupRecord rid st m = Some (a, e')
           \<and> responseBodyBytes e' = Some b \<and> responseBodySize e' = Some s"
    using assms by blast
  have upd: "\<exists>e'. lookupRecord rid st (snd (updateRequest rid' (responsePatch c tx h bd ct tm d) st (m\<lparr>objects := oh\<rparr>))) = Some (a, e')
           \<and> responseBodyBytes e' = Some b \<and> responseBodySize e' = Some s" for rid' c tx h bd ct tm d oh
    by (rule updateRequest_keeps_response_bytes[where e=e]) (simp_all add: assms)
  show ?thesis
    unfolding onResponse_def Let_def
    using same upd
    by (auto simp: split_beta split: option.splits attempt.splits prod.splits)
qed

lemma onRequest_unreadable:
  "\<not> readable r \<Longrightarrow> snd (onRequest t pv r now st m) = (st, m)"
  by (auto simp: readable_def onRequest_def Let_def split_beta split: attempt.splits prod.splits)

lemma store_inv_updateRequest:
  assumes "store_inv st m"
  shows "store_inv st (snd (updateRequest rid patch st m))"
proof (cases "lookupRecord rid st m")
  case None
  then show ?thesis using assms by (simp add: updateRequest_def)
next
  case (Some p)
  obtain a ex where p: "p = (a, ex)" by (cases p)
  have "slot_ok st (snd (updateRequest rid patch st m)) x" if "slot_ok st m x" for x
    using that Some p by (auto simp: slot_ok_def updateRequest_def store_def)
  then show ?thesis using assms by (auto simp: store_inv_def list_all_iff)
qed

lemma store_inv_onResponse:
  assumes "store_inv st m"
  shows "store_inv st (snd (onResponse t pv resp st m))"
proof -
  have "store_inv st (snd (updateRequest rid patch st (m\<lparr>objects := oh\<rparr>)))" for rid patch oh
    using assms by (intro store_inv_updateRequest) simp
  then show ?thesis
    unfolding onResponse_def Let_def using assms
    by (auto simp: split_beta split: option.splits attempt.splits prod.splits)
qed

lemma store_inv_onRequestFailed:
  assumes "store_inv st m"
  shows "store_inv st (snd (onRequestFailed t pv r st m))"
  unfolding onRequestFailed_def Let_def using assms store_inv_updateRequest[OF assms]
  by (auto simp: split_beta split: option.splits attempt.splits)

lemma onRequest_effect:
  assumes "readable r" and "store_inv st m"
  shows "\<exists>a st1 m0 m1 s. saveRequest now (observedData t pv r m) st (m\<lparr>objects := m0\<rparr>) = (a, st1, m1)
     \<and> snd (onRequest t pv r now st m) = (st1, m1\<lparr>requestIdSymbol := s\<rparr>)"
proof -
  let ?m0 = "m\<lparr>objects := snd (safeClone (case req_headers r of Gave hdr \<Rightarrow> hdr | Threw _ \<Rightarrow> None) (objects m))\<rparr>"
  obtain a sa ma where sv: "saveRequest now (observedData t pv r m) st ?m0 = (a, sa, ma)"
    by (cases "saveRequest now (observedData t pv r m) st ?m0")
  show ?thesis
    using sv unfolding onRequest_readable[OF assms(1)] by (auto simp: Let_def)
qed

lemma store_inv_onRequest:
  assumes "store_inv st m"
  shows "store_inv (fst (snd (onRequest t pv r now st m))) (snd (snd (onRequest t pv r now st m)))"
proof (cases "readable r")
  case False
  then show ?thesis using assms by (simp add: onRequest_unreadable)
next
  case True
  from onRequest_effect[OF True assms, of now t pv] obtain a st1 m0 m1 s where
    sv: "saveRequest now (observedData t pv r m) st (m\<lparr>objects := m0\<rparr>) = (a, st1, m1)"
    and eq: "snd (onRequest t pv r now st m) = (st1, m1\<lparr>requestIdSymbol := s\<rparr>)" by blast
  have "store_inv st (m\<lparr>objects := m0\<rparr>)" using assms by simp
  then have "store_inv st1 m1" using sv by (rule store_inv_saveRequest)
  then show ?thesis by (simp add: eq)
qed

lemma lookupRecord_older:
  assumes "store_inv st m" and "saveRequest now d st m = (a, st1, m1)"
    and "lookupRecord rid st m = Some (b, e)"
  shows "lookupRecord rid st1 m1 = Some (b, e)"
proof -
  have fresh: "nextRequestId st \<notin> fst ` set (requests st)"
    using assms(1) by (rule nextRequestId_fresh)
  have mo: "map_of (requests st) rid = Some b" and ce: "cells (records m) b = Some e"
    using assms(3) by (auto simp: lookupRecord_def split: option.splits)
  then have "(rid, b) \<in> set (requests st)" by (auto dest: map_of_SomeD)
  then have "b < brk (records m)"
    using assms(1) by (auto simp: store_inv_def slot_ok_def list_all_iff)
  then show ?thesis
    using assms(2) fresh mo ce
    by (auto simp: saveRequest_unfold update_fresh lookupRecord_def map_add_def split: option.splits)
qed

lemma failurePatch_no_bytes [simp]:
  "responseBodyBytes (failurePatch x) = None" "responseBodySize (failurePatch x) = None"
  by (simp_all add: failurePatch_def noData_def noProps_def props.defs data.defs)

lemma onRequestFailed_keeps_response_bytes:
  assumes "lookupRecord rid st m = Some (a, e)"
    and "responseBodyBytes e = Some b" and "responseBodySize e = Some s"
  shows "\<exists>e'. lookupRecord rid st (snd (onRequestFailed t pv r st m)) = Some (a, e')
           \<and> responseBodyBytes e' = Some b \<and> responseBodySize e' = Some s"
proof -
  have same: "\<exists>e'. lookupRecord rid st m = Some (a, e')
           \<and> responseBodyBytes e' = Some b \<and> responseBodySize e' = Some s"
    using assms by blast
  have upd: "\<exists>e'. lookupRecord rid st (snd (updateRequest rid' (failurePatch x) st m)) = Some (a, e')
           \<and> responseBodyBytes e' = Some b \<and> responseBodySize e' = Some s" for rid' x
    by (rule updateRequest_keeps_response_bytes[where e=e]) (simp_all add: assms)
  show ?thesis
    unfolding onRequestFailed_def Let_def
    using same upd
    by (auto simp: split_beta split: option.splits attempt.splits)
qed

lemma zeroResponseCounts_iff:
  "zeroResponseCounts rid a (st, m) =
    (\<exists>e. lookupRecord rid st m = Some (a, e) \<and> responseBodyBytes e = Some 0 \<and> responseBodySize e = Some 0)"
  by (auto simp: zeroResponseCounts_def split: option.splits)

lemma deliver_keeps:
  assumes "store_inv (fst s) (snd s)" and "zeroResponseCounts rid a s"
  shows "store_inv (fst (deliver ev s)) (snd (deliver ev s)) \<and> zeroResponseCounts rid a (deliver ev s)"
proof -
  obtain st m where s: "s = (st, m)" by (cases s)
  have inv: "store_inv st m" using assms(1) s by simp
  obtain e where e: "lookupRecord rid st m = Some (a, e)" "responseBodyBytes e = Some 0"
    "responseBodySize e = Some 0"
    using assms(2) s by (auto simp: zeroResponseCounts_iff)
  show ?thesis
  proof (cases ev)
    case (RequestEvent t pv r now)
    show ?thesis
    proof (cases "readable r")
      case False
      then show ?thesis using RequestEvent s inv e
        by (auto simp: onRequest_unreadable zeroResponseCounts_iff)
    next
      case True
      from onRequest_effect[OF True inv, of now t pv] obtain a1 st1 m0 m1 sy where
        sv: "saveRequest now (observedData t pv r m) st (m\<lparr>objects := m0\<rparr>) = (a1, st1, m1)"
        and eq: "snd (onRequest t pv r now st m) = (st1, m1\<lparr>requestIdSymbol := sy\<rparr>)" by blast
      have inv0: "store_inv st (m\<lparr>objects := m0\<rparr>)" using inv by simp
      have e0: "lookupRecord rid st (m\<lparr>objects := m0\<rparr>) = Some (a, e)" using e(1) by simp
      have "lookupRecord rid st1 m1 = Some (a, e)" using inv0 sv e0 by (rule lookupRecord_older)
      moreover have "store_inv st1 m1" using inv0 sv by (rule store_inv_saveRequest)
      ultimately show ?thesis using RequestEvent s eq e(2,3)
        by (auto simp: zeroResponseCounts_iff)
    qed
  next
    case (ResponseEvent t pv resp)
    then show ?thesis
      using s store_inv_onResponse[OF inv] onResponse_keeps_response_bytes[OF e]
      by (auto simp: zeroResponseCounts_iff)
  next
    case (FailureEvent t pv r)
    then show ?thesis
      using s store_inv_onRequestFailed[OF inv] onRequestFailed_keeps_response_bytes[OF e]
      by (auto simp: zeroResponseCounts_iff)
  qed
qed

lemma fold_deliver_keeps:
  assumes "store_inv (fst s) (snd s)" and "zeroResponseCounts rid a s"
  shows "store_inv (fst (fold deliver evs s)) (snd (fold deliver evs s))
     \<and> zeroResponseCounts rid a (fold deliver evs s)"
  using assms
proof (induction evs arbitrary: s)
  case Nil
  then show ?case by simp
next
  case (Cons ev evs)
  from deliver_keeps[OF Cons.prems] show ?case
    by (simp add: Cons.IH)
qed

text \<open>
  Claim C10. A record that the request handler creates starts with
  \<open>responseBodyBytes\<close> and \<open>responseBodySize\<close> equal to 0, and both are still 0
  after any later events of the capture pipeline on the same store (requests starting,
  responses arriving with whatever body, requests failing).
\<close>

theorem tracker_response_byte_counts_stay_zero:
  assumes "store_inv st m" and "readable r"
    and "onRequest t pv r now st m = (t1, st1, m1)"
    and "fold deliver evs (st1, m1) = (st2, m2)"
  shows "\<exists>a e e'. requestIdSymbol m1 (req_identity r) = Some (nextRequestId st)
    \<and> lookupRecord (nextRequestId st) st1 m1 = Some (a, e)
    \<and> responseBodyBytes e = Some 0 \<and> responseBodySize e = Some 0
    \<and> lookupRecord (nextRequestId st) st2 m2 = Some (a, e')
    \<and> responseBodyBytes e' = Some 0 \<and> responseBodySize e' = Some 0"
proof -
  let ?m0 = "m\<lparr>objects := snd (safeClone (case req_headers r of Gave hdr \<Rightarrow> hdr | Threw _ \<Rightarrow> None) (objects m))\<rparr>"
  let ?d = "observedData t pv r m"
  obtain a sa ma where sv: "saveRequest now ?d st ?m0 = (a, sa, ma)"
    by (cases "saveRequest now ?d st ?m0")
  have inv0: "store_inv st ?m0" using assms(1) by simp
  have st1: "st1 = sa" and m1: "m1 = ma\<lparr>requestIdSymbol := (requestIdSymbol ma)(req_identity r := recordId ma a)\<rparr>"
    using assms(3) sv unfolding onRequest_readable[OF assms(2)] by (simp_all add: Let_def)
  note lk = lookupRecord_saveRequest[OF inv0 sv]
  let ?e = "savedRecord now ?d st"
  have found: "lookupRecord (nextRequestId st) st1 m1 = Some (a, ?e)"
    using lk unfolding st1 m1 by simp
  have cell: "cells (records ma) a = Some ?e"
    using lk(1) lk(2) by (auto simp: lookupRecord_def split: option.splits)
  have sym: "requestIdSymbol m1 (req_identity r) = Some (nextRequestId st)"
    unfolding m1 using cell observedData_fields(1)[OF assms(2)]
    by (simp add: recordId_def)
  have zero: "responseBodyBytes ?e = Some 0" "responseBodySize ?e = Some 0"
    using observedData_fields[OF assms(2), of t pv m]
    by (simp_all add: savedRecord_byte_fields bodyBytes_def)
  have inv1: "store_inv (fst (st1, m1)) (snd (st1, m1))"
    using store_inv_saveRequest[OF inv0 sv] unfolding st1 m1 by simp
  have z1: "zeroResponseCounts (nextRequestId st) a (st1, m1)"
    using found zero by (auto simp: zeroResponseCounts_iff)
  from fold_deliver_keeps[OF inv1 z1, of evs] have "zeroResponseCounts (nextRequestId st) a (st2, m2)"
    unfolding assms(4) by simp
  then show ?thesis using sym found zero by (auto simp: zeroResponseCounts_iff)
qed

subsection \<open>Timestamps of the records the trackers create\<close>

lemma noneBeforeEpoch_new: "noneBeforeEpoch newStorage emptyMem"
  by (simp add: noneBeforeEpoch_def storedRecords_def newStorage_def List.map_filter_def)

lemma noneBeforeEpoch_objects [simp]: "noneBeforeEpoch st (m\<lparr>objects := oh\<rparr>) = noneBeforeEpoch st m"
  by (simp add: noneBeforeEpoch_def storedRecords_def)

lemma noneBeforeEpoch_symbol [simp]: "noneBeforeEpoch st (m\<lparr>requestIdSymbol := s\<rparr>) = noneBeforeEpoch st m"
  by (simp add: noneBeforeEpoch_def storedRecords_def)

lemma noneBeforeEpoch_saveRequest:
  assumes "store_inv st m" and "noneBeforeEpoch st m"
    and "d_timestamp d = None" and "0 \<le> now"
    and "saveRequest now d st m = (a, st1, m1)"
  shows "noneBeforeEpoch st1 m1"
  using assms(2,3,4) unfolding noneBeforeEpoch_def storedRecords_saveRequest[OF assms(1,5)]
  by simp

lemma timestamp_patched:
  "d_timestamp patch = None \<Longrightarrow>
   timestamp (deriveAfterPatch patch (Object_assign e patch)) = timestamp e"
  by (simp add: deriveAfterPatch_def Object_assign_def Let_def)

lemma map_filter_timestamps:
  "(\<And>x. x \<in> set xs \<Longrightarrow> map_option timestamp (f x) = map_option timestamp (g x)) \<Longrightarrow>
   map timestamp (List.map_filter f xs) = map timestamp (List.map_filter g xs)"
proof (induction xs)
  case Nil
  show ?case by (simp add: List.map_filter_def)
next
  case (Cons x xs)
  have hd: "map_option timestamp (f x) = map_option timestamp (g x)" using Cons.prems by simp
  have tl: "map timestamp (List.map_filter f xs) = map timestamp (List.map_filter g xs)"
    using Cons by simp
  show ?case using hd tl
    by (cases "f x"; cases "g x") (simp_all add: List.map_filter_simps)
qed

lemma timestamps_updateRequest:
  assumes "d_timestamp patch = None"
  shows "map timestamp (storedRecords st (snd (updateRequest rid patch st m)))
           = map timestamp (storedRecords st m)"
proof (cases "lookupRecord rid st m")
  case None
  then show ?thesis by (simp add: updateRequest_def)
next
  case (Some p)
  obtain a ex where p: "p = (a, ex)" by (cases p)
  have ce: "cells (records m) a = Some ex"
    using Some p by (auto simp: lookupRecord_def split: option.splits)
  show ?thesis
    unfolding storedRecords_def
    using Some p ce timestamp_patched[OF assms, of ex]
    by (intro map_filter_timestamps) (auto simp: updateRequest_def store_def)
qed

lemma noneBeforeEpoch_updateRequest:
  assumes "d_timestamp patch = None" and "noneBeforeEpoch st m"
  shows "noneBeforeEpoch st (snd (updateRequest rid patch st m))"
proof -
  have "list_all (\<lambda>t. 0 \<le> t) (map timestamp (storedRecords st (snd (updateRequest rid patch st m))))"
    unfolding timestamps_updateRequest[OF assms(1)]
    using assms(2) by (simp add: noneBeforeEpoch_def list_all_iff)
  then show ?thesis by (simp add: noneBeforeEpoch_def list_all_iff)
qed

lemma responsePatch_no_timestamp [simp]: "d_timestamp (responsePatch c t h b ct tm d) = None"
  by (simp add: responsePatch_def noData_def noProps_def props.defs data.defs)

lemma failurePatch_no_timestamp [simp]: "d_timestamp (failurePatch x) = None"
  by (simp add: failurePatch_def noData_def noProps_def props.defs data.defs)

lemma observedData_no_timestamp: "d_timestamp (observedData t pv r m) = None"
  by (auto simp: observedData_def requestData_def noData_def noProps_def Let_def
      split_beta props.defs data.defs split: attempt.splits)

lemma noneBeforeEpoch_onResponse:
  assumes "noneBeforeEpoch st m"
  shows "noneBeforeEpoch st (snd (onResponse t pv resp st m))"
proof -
  have "noneBeforeEpoch st (snd (updateRequest rid (responsePatch c tx h bd ct tm d) st (m\<lparr>objects := oh\<rparr>)))"
    for rid c tx h bd ct tm d oh
    using assms by (intro noneBeforeEpoch_updateRequest) simp_all
  then show ?thesis
    unfolding onResponse_def Let_def using assms
    by (auto simp: split_beta split: option.splits attempt.splits prod.splits)
qed

lemma noneBeforeEpoch_onRequestFailed:
  assumes "noneBeforeEpoch st m"
  shows "noneBeforeEpoch st (snd (onRequestFailed t pv r st m))"
  unfolding onRequestFailed_def Let_def
  using assms noneBeforeEpoch_updateRequest[OF failurePatch_no_timestamp assms]
  by (auto simp: split_beta split: option.splits attempt.splits)

lemma deliver_keeps_clock:
  assumes "store_inv (fst s) (snd s)" and "noneBeforeEpoch (fst s) (snd s)" and "clockAfterEpoch ev"
  shows "store_inv (fst (deliver ev s)) (snd (deliver ev s))
     \<and> noneBeforeEpoch (fst (deliver ev s)) (snd (deliver ev s))"
proof -
  obtain st m where s: "s = (st, m)" by (cases s)
  have inv: "store_inv st m" and nb: "noneBeforeEpoch st m" using assms(1,2) s by simp_all
  show ?thesis
  proof (cases ev)
    case (RequestEvent t pv r now)
    show ?thesis
    proof (cases "readable r")
      case False
      then show ?thesis using RequestEvent s inv nb by (simp add: onRequest_unreadable)
    next
      case True
      from onRequest_effect[OF True inv, of now t pv] obtain a1 st1 m0 m1 sy where
        sv: "saveRequest now (observedData t pv r m) st (m\<lparr>objects := m0\<rparr>) = (a1, st1, m1)"
        and eq: "snd (onRequest t pv r now st m) = (st1, m1\<lparr>requestIdSymbol := sy\<rparr>)" by blast
      have inv0: "store_inv st (m\<lparr>objects := m0\<rparr>)" using inv by simp
      have nb0: "noneBeforeEpoch st (m\<lparr>objects := m0\<rparr>)" using nb by simp
      have now: "0 \<le> now" using assms(3) RequestEvent by simp
      have "noneBeforeEpoch st1 m1"
        using inv0 nb0 observedData_no_timestamp now sv by (rule noneBeforeEpoch_saveRequest)
      moreover have "store_inv st1 m1" using inv0 sv by (rule store_inv_saveRequest)
      ultimately show ?thesis using RequestEvent s eq by simp
    qed
  next
    case (ResponseEvent t pv resp)
    then show ?thesis
      using s store_inv_onResponse[OF inv] noneBeforeEpoch_onResponse[OF nb] by simp
  next
    case (FailureEvent t pv r)
    then show ?thesis
      using s store_inv_onRequestFailed[OF inv] noneBeforeEpoch_onRequestFailed[OF nb] by simp
  qed
qed

text \<open>Whatever events the trackers of a context handle, with clock readings not before
  the epoch, the store keeps its invariant and holds no record stamped before the
  epoch; a new store is such a store.\<close>

lemma fold_deliver_keeps_clock:
  assumes "store_inv (fst s) (snd s)" and "noneBeforeEpoch (fst s) (snd s)"
    and "list_all clockAfterEpoch evs"
  shows "store_inv (fst (fold deliver evs s)) (snd (fold deliver evs s))
     \<and> noneBeforeEpoch (fst (fold deliver evs s)) (snd (fold deliver evs s))"
  using assms
proof (induction evs arbitrary: s)
  case Nil
  then show ?case by simp
next
  case (Cons ev evs)
  from Cons.prems(3) have ev: "clockAfterEpoch ev" and rest: "list_all clockAfterEpoch evs" by simp_all
  from deliver_keeps_clock[OF Cons.prems(1,2) ev] show ?case
    by (simp add: Cons.IH rest)
qed

subsection \<open>The tracker of an attached page\<close>

lemma store_inv_storageOne: "store_inv storageOne emptyMem"
  by (simp add: store_inv_def storageOne_def)

lemma readable_postRequest: "readable (postRequest b)"
  by (simp add: readable_def postRequest_def)

theorem tracker_response_byte_counts_stay_zero_witness:
  "store_inv storageOne emptyMem \<and> readable (postRequest ''body'')
   \<and> (\<exists>a e e'. requestIdSymbol (snd (snd exampleRun)) (req_identity (postRequest ''body''))
          = Some (nextRequestId storageOne)
      \<and> lookupRecord (nextRequestId storageOne) (fst (snd exampleRun)) (snd (snd exampleRun)) = Some (a, e)
      \<and> responseBodyBytes e = Some 0 \<and> responseBodySize e = Some 0
      \<and> lookupRecord (nextRequestId storageOne)
           (fst (fold deliver [ResponseEvent trackerOne examplePage (textResponse ''a long answer'')]
                   (snd exampleRun)))
           (snd (fold deliver [ResponseEvent trackerOne examplePage (textResponse ''a long answer'')]
                   (snd exampleRun))) = Some (a, e')
      \<and> responseBodyBytes e' = Some 0 \<and> responseBodySize e' = Some 0)"
proof -
  let ?evs = "[ResponseEvent trackerOne examplePage (textResponse ''a long answer'')]"
  have rq: "onRequest trackerOne examplePage (postRequest ''body'') 1000 storageOne emptyMem
      = (fst exampleRun, fst (snd exampleRun), snd (snd exampleRun))"
    by (simp add: exampleRun_def)
  have rs: "fold deliver ?evs (fst (snd exampleRun), snd (snd exampleRun))
      = (fst (fold deliver ?evs (snd exampleRun)), snd (fold deliver ?evs (snd exampleRun)))"
    by simp
  show ?thesis
    using tracker_response_byte_counts_stay_zero[OF store_inv_storageOne readable_postRequest rq rs]
      store_inv_storageOne readable_postRequest
    by blast
qed

lemma attach_initial:
  "attachPage 3 5 examplePage (configure opts initialWorld) =
    (0, (configure opts initialWorld)\<lparr>
        contextState := (\<lambda>_. None)(3 \<mapsto> \<lparr>cs_storage = 0, cs_trackers = [(5, 0)]\<rparr>),
        pageCounter := 1, trackerCounter := 1,
        storages := \<lparr>cells = (\<lambda>_. None)(0 \<mapsto> \<lparr>requests = [], requestCounter = 0,
                        activePageMonitors = [(''page-1'', ''monitor-1'')]\<rparr>), brk = 1\<rparr>,
        trackers := \<lparr>cells = (\<lambda>_. None)(0 \<mapsto>
            \<lparr>t_context = 3, t_page = 5, t_pageId = ''page-1'', t_storage = 0,
             maxBodyLength = 65536, maxPostDataLength = 32768, monitorId = ''monitor-1'',
             disposed = False, latestUrl = ''http://x/'', latestTitle = ''x''\<rparr>), brk = 1\<rparr>,
        pageListeners := (\<lambda>_. [])(5 := [(''request'', 0), (''response'', 0), (''requestfailed'', 0)])\<rparr>)"
  by (simp add: attachPage_def ensureContextState_def initialWorld_def configure_def emptyHeap_def
      alloc_def newStorage_def newPageTracker_def Let_def showNat_1 examplePage_def
      safePageUrl_def safePageTitle_def onStorage_def store_def registerPageMonitor_def)

lemma attach_initial_tracker:
  "cells (trackers (snd (attachPage 3 5 examplePage (configure opts initialWorld))))
      (fst (attachPage 3 5 examplePage (configure opts initialWorld))) = Some trackerOne"
  "cells (storages (snd (attachPage 3 5 examplePage (configure opts initialWorld)))) 0 = Some storageOne"
  by (simp_all add: attach_initial trackerOne_def storageOne_def)

lemma configure_nothing: "configure \<lparr>maxRequestBodyKB = None, maxResponseBodyKB = None\<rparr> w = w"
  by (simp add: configure_def configureNetworkLimits_def)

lemma safeTruncate_long:
  "safeTruncate (Gave (Val (replicate 32769 (CHR ''a'')))) 32768 = (Val (replicate 32768 (CHR ''a'')), True)"
  by (simp add: safeTruncate_def slice0_def)

lemma bodyBytes_replicate:
  "0 < n \<Longrightarrow> bodyBytes (Some (Val (replicate n (CHR ''a'')))) = int n"
  by (simp add: bodyBytes_def byteLength_replicate_ascii)

lemma onRequest_long_post:
  assumes "onRequest trackerOne examplePage (postRequest (replicate 32769 (CHR ''a''))) 1000 storageOne emptyMem
     = (t1, st1, m1)"
  shows "\<exists>e. lookupRecord ''req-1'' st1 m1 = Some (0, e)
     \<and> requests st1 = [(''req-1'', 0)]
     \<and> maxBodyLength t1 = 65536
     \<and> requestIdSymbol m1 7 = Some ''req-1''
     \<and> requestBodyTruncated e = Some True \<and> requestBodyBytes e = Some 32768
     \<and> requestBodySize e = Some 32768
     \<and> responseBodyBytes e = Some 0 \<and> responseBodySize e = Some 0"
proof -
  let ?r = "postRequest (replicate 32769 (CHR ''a''))"
  let ?d = "observedData trackerOne examplePage ?r emptyMem"
  let ?m0 = "emptyMem\<lparr>objects := snd (safeClone (case req_headers ?r of Gave hdr \<Rightarrow> hdr | Threw _ \<Rightarrow> None) (objects emptyMem))\<rparr>"
  obtain a sa ma where sv: "saveRequest 1000 ?d storageOne ?m0 = (a, sa, ma)"
    by (cases "saveRequest 1000 ?d storageOne ?m0")
  have inv0: "store_inv storageOne ?m0" using store_inv_storageOne by simp
  have st1: "st1 = sa" and m1: "m1 = ma\<lparr>requestIdSymbol := (requestIdSymbol ma)(req_identity ?r := recordId ma a)\<rparr>"
    using assms sv unfolding onRequest_readable[OF readable_postRequest] by (simp_all add: Let_def)
  have nid: "nextRequestId storageOne = ''req-1''"
    by (simp add: nextRequestId_def storageOne_def showNat_1)
  have b0: "brk (records ?m0) = 0" by (simp add: emptyMem_def emptyHeap_def)
  note lk = lookupRecord_saveRequest[OF inv0 sv, unfolded nid b0]
  let ?e = "savedRecord 1000 ?d storageOne"
  have recs: "storedRecords sa ma = [?e]"
    using storedRecords_saveRequest[OF inv0 sv]
    by (simp add: storedRecords_def storageOne_def List.map_filter_def)
  have cell: "cells (records ma) a = Some ?e"
    using lk by (auto simp: lookupRecord_def split: option.splits)
  have sym: "requestIdSymbol m1 7 = Some ''req-1''"
    unfolding m1 using cell observedData_fields(1)[OF readable_postRequest] nid
    by (simp add: recordId_def postRequest_def)
  have mx: "maxPostDataLength trackerOne = 32768" by (simp add: trackerOne_def)
  have pd: "req_postData ?r = Gave (Val (replicate 32769 (CHR ''a'')))" by (simp add: postRequest_def)
  note od = observedData_fields[OF readable_postRequest[of "replicate 32769 (CHR ''a'')"],
      where t=trackerOne and pv=examplePage and m=emptyMem,
      unfolded mx pd safeTruncate_long fst_conv snd_conv]
  have flds: "requestBodyTruncated ?e = Some True" "requestBodyBytes ?e = Some 32768"
    "requestBodySize ?e = Some 32768" "responseBodyBytes ?e = Some 0" "responseBodySize ?e = Some 0"
    by (simp_all add: savedRecord_byte_fields od bodyBytes_replicate) (simp_all add: bodyBytes_def)
  have rq: "requests sa = [(''req-1'', 0)]"
    using sv lk(2) by (auto simp: saveRequest_unfold storageOne_def nid[unfolded storageOne_def])
  have t1: "maxBodyLength t1 = 65536"
    using assms unfolding onRequest_readable[OF readable_postRequest]
    by (auto simp: Let_def split_beta trackerOne_def)
  show ?thesis
    using lk(1) rq t1 sym flds unfolding st1 m1 by (auto simp: lk(2))
qed

lemma onResponse_long_text:
  assumes "lookupRecord ''req-1'' st m = Some (0, e)"
    and "requestIdSymbol m 7 = Some ''req-1''"
    and "maxBodyLength t = 65536"
    and "onResponse t examplePage (textResponse (replicate 65537 (CHR ''b''))) st m = (t2, m2)"
    and "responseBodyBytes e = Some b0" and "responseBodySize e = Some s0"
  shows "\<exists>e'. cells (records m2) 0 = Some e'
     \<and> responseBodyTruncated e' = Some True
     \<and> responseBody e' = Some (Val (replicate 65536 (CHR ''b'')))
     \<and> requestBodyTruncated e' = requestBodyTruncated e
     \<and> requestBodyBytes e' = requestBodyBytes e \<and> requestBodySize e' = requestBodySize e
     \<and> responseBodyBytes e' = responseBodyBytes e \<and> responseBodySize e' = responseBodySize e"
proof -
  let ?b = "readResponseBody (t\<lparr>latestUrl := safePageUrl examplePage, latestTitle := safePageTitle examplePage\<rparr>)
              (Gave (Val (replicate 65537 (CHR ''b''))))"
  have b: "body ?b = Val (replicate 65536 (CHR ''b''))" "truncated ?b = True"
    using assms(3) by (simp_all add: readResponseBody_def slice0_def Let_def)
  have m2: "m2 = snd (updateRequest ''req-1''
      (responsePatch 200 ''OK'' (fst (safeClone (Some []) (objects m))) ?b Null Null Null) st
      (m\<lparr>objects := snd (safeClone (Some []) (objects m))\<rparr>))"
    using assms(2,4)
    by (auto simp: onResponse_def textResponse_def Let_def split_beta getHeader_def safeTiming_def
        newObject_def durationOf_def)
  let ?p = "responsePatch 200 ''OK'' (fst (safeClone (Some []) (objects m))) ?b Null Null Null"
  have p: "responseBodyTruncated ?p = Some (truncated ?b)" "responseBody ?p = Some (body ?b)"
    "requestBodyTruncated ?p = None" "requestBodyBytes ?p = None" "requestBodySize ?p = None"
    "requestBody ?p = None" "responseBodyBytes ?p = None" "responseBodySize ?p = None"
    by (simp_all add: responsePatch_def noData_def noProps_def props.defs data.defs)
  have cell: "cells (records m2) 0 = Some (deriveAfterPatch ?p (Object_assign e ?p))"
    unfolding m2 using assms(1) by (simp add: updateRequest_def store_def)
  show ?thesis
    unfolding cell using p b assms(5,6)
    by (simp add: deriveAfterPatch_def Object_assign_def assignProps_def orElse_def Let_def)
qed

text \<open>
  Claim C2. The tracker attached to the first page receives a request whose body has
  32769 characters and then a response whose body has 65537 characters. The stored
  record has both truncation flags set, while the captured and the original request
  byte counts are both 32768 and the response byte counts are both 0.
\<close>

theorem pipeline_truncation_flags_without_size_gap:
  "(let (a, w1) = attachPage 3 5 examplePage initialWorld;
        t = the (cells (trackers w1) a);
        st0 = the (cells (storages w1) (t_storage t));
        (t1, st1, m1) = onRequest t examplePage (postRequest (replicate 32769 (CHR ''a''))) 1000 st0 emptyMem;
        (t2, m2) = onResponse t1 examplePage (textResponse (replicate 65537 (CHR ''b''))) st1 m1
    in map (\<lambda>e. (requestBodyTruncated e, requestBodyBytes e, requestBodySize e,
                 responseBodyTruncated e, responseBodyBytes e, responseBodySize e))
         (storedRecords st1 m2))
   = [(Some True, Some 32768, Some 32768, Some True, Some 0, Some 0)]"
proof -
  let ?w = "attachPage 3 5 examplePage initialWorld"
  note at = attach_initial_tracker[of "\<lparr>maxRequestBodyKB = None, maxResponseBodyKB = None\<rparr>",
      unfolded configure_nothing]
  have t: "cells (trackers (snd ?w)) (fst ?w) = Some trackerOne"
    and s: "cells (storages (snd ?w)) 0 = Some storageOne"
    by (rule at)+
  have ts: "t_storage trackerOne = 0" by (simp add: trackerOne_def)
  let ?rq = "onRequest trackerOne examplePage (postRequest (replicate 32769 (CHR ''a''))) 1000 storageOne emptyMem"
  obtain t1 st1 m1 where rq: "?rq = (t1, st1, m1)" by (cases ?rq)
  from onRequest_long_post[OF rq] obtain e where e: "lookupRecord ''req-1'' st1 m1 = Some (0, e)"
    "requests st1 = [(''req-1'', 0)]" "maxBodyLength t1 = 65536" "requestIdSymbol m1 7 = Some ''req-1''"
    "requestBodyTruncated e = Some True" "requestBodyBytes e = Some 32768"
    "requestBodySize e = Some 32768" "responseBodyBytes e = Some 0" "responseBodySize e = Some 0"
    by blast
  let ?rs = "onResponse t1 examplePage (textResponse (replicate 65537 (CHR ''b''))) st1 m1"
  obtain t2 m2 where rs: "?rs = (t2, m2)" by (cases ?rs)
  from onResponse_long_text[OF e(1) e(4) e(3) rs e(8) e(9)] obtain e' where e': "cells (records m2) 0 = Some e'"
    "responseBodyTruncated e' = Some True"
    "requestBodyTruncated e' = requestBodyTruncated e"
    "requestBodyBytes e' = requestBodyBytes e" "requestBodySize e' = requestBodySize e"
    "responseBodyBytes e' = responseBodyBytes e" "responseBodySize e' = responseBodySize e"
    by blast
  have recs: "storedRecords st1 m2 = [e']"
    by (simp add: storedRecords_def e(2) e'(1) List.map_filter_def)
  show ?thesis
    by (simp add: split_beta Let_def t s ts rq rs recs e e')
qed

lemma onRequest_post:
  assumes "onRequest trackerOne examplePage (postRequest b) 1000 storageOne emptyMem = (t1, st1, m1)"
  shows "\<exists>e. lookupRecord ''req-1'' st1 m1 = Some (0, e)
     \<and> requests st1 = [(''req-1'', 0)]
     \<and> maxBodyLength t1 = 65536
     \<and> requestIdSymbol m1 7 = Some ''req-1''
     \<and> requestBody e = Some (fst (safeTruncate (Gave (Val b)) 32768))
     \<and> requestBodyTruncated e = Some (snd (safeTruncate (Gave (Val b)) 32768))
     \<and> requestBodyBytes e = Some (bodyBytes (Some (fst (safeTruncate (Gave (Val b)) 32768))))
     \<and> requestBodySize e = Some (bodyBytes (Some (fst (safeTruncate (Gave (Val b)) 32768))))
     \<and> responseBodyTruncated e = Some False
     \<and> responseBodyBytes e = Some 0 \<and> responseBodySize e = Some 0"
proof -
  let ?r = "postRequest b"
  let ?d = "observedData trackerOne examplePage ?r emptyMem"
  let ?m0 = "emptyMem\<lparr>objects := snd (safeClone (case req_headers ?r of Gave hdr \<Rightarrow> hdr | Threw _ \<Rightarrow> None) (objects emptyMem))\<rparr>"
  obtain a sa ma where sv: "saveRequest 1000 ?d storageOne ?m0 = (a, sa, ma)"
    by (cases "saveRequest 1000 ?d storageOne ?m0")
  have inv0: "store_inv storageOne ?m0" using store_inv_storageOne by simp
  have st1: "st1 = sa" and m1: "m1 = ma\<lparr>requestIdSymbol := (requestIdSymbol ma)(req_identity ?r := recordId ma a)\<rparr>"
    using assms sv unfolding onRequest_readable[OF readable_postRequest] by (simp_all add: Let_def)
  have nid: "nextRequestId storageOne = ''req-1''"
    by (simp add: nextRequestId_def storageOne_def showNat_1)
  have b0: "brk (records ?m0) = 0" by (simp add: emptyMem_def emptyHeap_def)
  note lk = lookupRecord_saveRequest[OF inv0 sv, unfolded nid b0]
  let ?e = "savedRecord 1000 ?d storageOne"
  have cell: "cells (records ma) a = Some ?e"
    using lk by (auto simp: lookupRecord_def split: option.splits)
  have sym: "requestIdSymbol m1 7 = Some ''req-1''"
    unfolding m1 using cell observedData_fields(1)[OF readable_postRequest] nid
    by (simp add: recordId_def postRequest_def)
  have mx: "maxPostDataLength trackerOne = 32768" by (simp add: trackerOne_def)
  have pd: "req_postData ?r = Gave (Val b)" by (simp add: postRequest_def)
  note od = observedData_fields[OF readable_postRequest[of b],
      where t=trackerOne and pv=examplePage and m=emptyMem, unfolded mx pd]
  have rb: "requestBody ?e = requestBody ?d"
    by (simp add: savedRecord_def deriveByteFields_def spreadRecord_def Let_def entry.defs props.defs)
  have flds: "requestBody ?e = Some (fst (safeTruncate (Gave (Val b)) 32768))"
    "requestBodyTruncated ?e = Some (snd (safeTruncate (Gave (Val b)) 32768))"
    "requestBodyBytes ?e = Some (bodyBytes (Some (fst (safeTruncate (Gave (Val b)) 32768))))"
    "requestBodySize ?e = Some (bodyBytes (Some (fst (safeTruncate (Gave (Val b)) 32768))))"
    "responseBodyTruncated ?e = Some False"
    "responseBodyBytes ?e = Some 0" "responseBodySize ?e = Some 0"
    by (simp_all add: rb savedRecord_byte_fields od) (simp_all add: bodyBytes_def)
  have rq: "requests sa = [(''req-1'', 0)]"
    using sv lk(2) by (auto simp: saveRequest_unfold storageOne_def nid[unfolded storageOne_def])
  have t1: "maxBodyLength t1 = 65536"
    using assms unfolding onRequest_readable[OF readable_postRequest]
    by (auto simp: Let_def split_beta trackerOne_def)
  show ?thesis
    using lk(1) rq t1 sym flds unfolding st1 m1 by (auto simp: lk(2))
qed

lemma onResponse_text:
  assumes "lookupRecord ''req-1'' st m = Some (0, e)"
    and "requestIdSymbol m 7 = Some ''req-1''"
    and "maxBodyLength t = 65536"
    and "onResponse t examplePage (textResponse s) st m = (t2, m2)"
    and "responseBodyBytes e = Some b0" and "responseBodySize e = Some s0"
  shows "\<exists>e'. cells (records m2) 0 = Some e'
     \<and> responseBodyTruncated e' = Some (65536 < length s)
     \<and> responseBody e' = Some (Val (take 65536 s))
     \<and> requestBody e' = requestBody e
     \<and> requestBodyTruncated e' = requestBodyTruncated e
     \<and> requestBodyBytes e' = requestBodyBytes e \<and> requestBodySize e' = requestBodySize e
     \<and> responseBodyBytes e' = Some b0 \<and> responseBodySize e' = Some s0"
proof -
  let ?b = "readResponseBody (t\<lparr>latestUrl := safePageUrl examplePage, latestTitle := safePageTitle examplePage\<rparr>)
              (Gave (Val s))"
  have b: "body ?b = Val (take 65536 s)" "truncated ?b = (65536 < length s)"
    using assms(3) by (simp_all add: readResponseBody_def slice0_def Let_def)
  have m2: "m2 = snd (updateRequest ''req-1''
      (responsePatch 200 ''OK'' (fst (safeClone (Some []) (objects m))) ?b Null Null Null) st
      (m\<lparr>objects := snd (safeClone (Some []) (objects m))\<rparr>))"
    using assms(2,4)
    by (auto simp: onResponse_def textResponse_def Let_def split_beta getHeader_def safeTiming_def
        newObject_def durationOf_def)
  let ?p = "responsePatch 200 ''OK'' (fst (safeClone (Some []) (objects m))) ?b Null Null Null"
  have p: "responseBodyTruncated ?p = Some (truncated ?b)" "responseBody ?p = Some (body ?b)"
    "requestBodyTruncated ?p = None" "requestBodyBytes ?p = None" "requestBodySize ?p = None"
    "requestBody ?p = None" "responseBodyBytes ?p = None" "responseBodySize ?p = None"
    by (simp_all add: responsePatch_def noData_def noProps_def props.defs data.defs)
  have cell: "cells (records m2) 0 = Some (deriveAfterPatch ?p (Object_assign e ?p))"
    unfolding m2 using assms(1) by (simp add: updateRequest_def store_def)
  show ?thesis
    unfolding cell using p b assms(5,6)
    by (simp add: deriveAfterPatch_def Object_assign_def assignProps_def orElse_def Let_def)
qed

lemma getUsage_storageOne: "getUsage storageOne emptyMem = zeroUsage"
  by (simp add: getUsage_def storageOne_def storedRecords_def List.map_filter_def zeroUsage_def)

lemma usage_of_captured_exchange:
  "(let (a, w1) = attachPage 3 5 examplePage initialWorld;
        t = the (cells (trackers w1) a);
        st0 = the (cells (storages w1) (t_storage t));
        (t1, st1, m1) = onRequest t examplePage (postRequest (replicate 100 (CHR ''a''))) 1000 st0 emptyMem;
        (t2, m2) = onResponse t1 examplePage (textResponse (replicate 70000 (CHR ''b''))) st1 m1
    in (getUsage st0 emptyMem,
        map (\<lambda>e. (bodyBytes (requestBody e), bodyBytes (responseBody e), responseBodyTruncated e))
          (storedRecords st1 m2),
        getUsage st1 m2))
   = (zeroUsage,
      [(100, 65536, Some True)],
      \<lparr>totalRequests = 1, requestBytes = 100, requestOriginalBytes = 100, requestTruncated = 0,
       responseBytes = 0, responseOriginalBytes = 0, responseTruncated = 1,
       estimatedMemoryBytes = 100\<rparr>)"
proof -
  let ?w = "attachPage 3 5 examplePage initialWorld"
  note at = attach_initial_tracker[of "\<lparr>maxRequestBodyKB = None, maxResponseBodyKB = None\<rparr>",
      unfolded configure_nothing]
  have t: "cells (trackers (snd ?w)) (fst ?w) = Some trackerOne"
    and s: "cells (storages (snd ?w)) 0 = Some storageOne"
    by (rule at)+
  have ts: "t_storage trackerOne = 0" by (simp add: trackerOne_def)
  let ?rq = "onRequest trackerOne examplePage (postRequest (replicate 100 (CHR ''a''))) 1000 storageOne emptyMem"
  obtain t1 st1 m1 where rq: "?rq = (t1, st1, m1)" by (cases ?rq)
  have cut: "safeTruncate (Gave (Val (replicate 100 (CHR ''a'')))) 32768 = (Val (replicate 100 (CHR ''a'')), False)"
    by (simp add: safeTruncate_def)
  from onRequest_post[OF rq, unfolded cut fst_conv snd_conv]
  obtain e where e: "lookupRecord ''req-1'' st1 m1 = Some (0, e)"
    "requests st1 = [(''req-1'', 0)]" "maxBodyLength t1 = 65536" "requestIdSymbol m1 7 = Some ''req-1''"
    "requestBody e = Some (Val (replicate 100 (CHR ''a'')))"
    "requestBodyTruncated e = Some False"
    "requestBodyBytes e = Some (bodyBytes (Some (Val (replicate 100 (CHR ''a'')))))"
    "requestBodySize e = Some (bodyBytes (Some (Val (replicate 100 (CHR ''a'')))))"
    "responseBodyBytes e = Some 0" "responseBodySize e = Some 0"
    by blast
  let ?rs = "onResponse t1 examplePage (textResponse (replicate 70000 (CHR ''b''))) st1 m1"
  obtain t2 m2 where rs: "?rs = (t2, m2)" by (cases ?rs)
  from onResponse_text[OF e(1) e(4) e(3) rs e(9) e(10)] obtain e' where e': "cells (records m2) 0 = Some e'"
    "responseBodyTruncated e' = Some (65536 < length (replicate 70000 (CHR ''b'')))"
    "responseBody e' = Some (Val (take 65536 (replicate 70000 (CHR ''b''))))"
    "requestBody e' = requestBody e"
    "requestBodyTruncated e' = requestBodyTruncated e"
    "requestBodyBytes e' = requestBodyBytes e" "requestBodySize e' = requestBodySize e"
    "responseBodyBytes e' = Some 0" "responseBodySize e' = Some 0"
    by blast
  have recs: "storedRecords st1 m2 = [e']"
    by (simp add: storedRecords_def e(2) e'(1) List.map_filter_def)
  have bb: "bodyBytes (Some (Val (replicate 100 (CHR ''a'')))) = 100"
    "bodyBytes (Some (Val (replicate 65536 (CHR ''b'')))) = 65536"
    by (simp_all add: bodyBytes_def byteLength_replicate_ascii)
  have us: "getUsage st1 m2 = \<lparr>totalRequests = 1, requestBytes = 100, requestOriginalBytes = 100,
       requestTruncated = 0, responseBytes = 0, responseOriginalBytes = 0, responseTruncated = 1,
       estimatedMemoryBytes = 100\<rparr>"
    unfolding getUsage_single[OF recs e(2)] by (simp add: e e' bb orZero_def nullish_def)
  show ?thesis
    by (simp add: split_beta Let_def t s ts rq rs recs e e' bb us getUsage_storageOne)
qed

lemma usage_after_updateRequest:
  "(let (a, st1, m1) = saveRequest 1000 (noData\<lparr>requestBody := Some (Val (replicate 100 (CHR ''a'')))\<rparr>)
                          newStorage emptyMem;
        (r, m2) = updateRequest ''req-1''
                    (noData\<lparr>responseBody := Some (Val (replicate 65536 (CHR ''b''))),
                            responseBodyTruncated := Some True, responseBodySize := Some 70000\<rparr>) st1 m1
    in getUsage st1 m2)
   = \<lparr>totalRequests = 1, requestBytes = 100, requestOriginalBytes = 100, requestTruncated = 0,
       responseBytes = 0, responseOriginalBytes = 70000, responseTruncated = 1,
       estimatedMemoryBytes = 100\<rparr>"
  by (simp add: saveRequest_unfold updateRequest_def lookupRecord_def store_def newStorage_def
      emptyMem_def emptyHeap_def nextRequestId_def showNat_1 storedRecords_def List.map_filter_def
      savedRecord_def spreadRecord_def deriveByteFields_def deriveAfterPatch_def Object_assign_def
      assignProps_def orElse_def noData_def noProps_def props.defs data.defs entry.defs Let_def
      bodyBytes_def byteLength_replicate_ascii getUsage_def usageStep_def zeroUsage_def orZero_def
      nullish_def split_beta)

text \<open>
  Claim C3. The tracker attached to the first page receives a request whose body has
  100 bytes and then a response whose body has 70000 bytes, cut to the 65536 it keeps.
  The report of \<open>getUsage\<close>, all zero before, then counts 100 request bytes, one
  truncated response and, for the response, 0 captured and 0 original bytes, although
  the stored response body has 65536 bytes. At the store alone, a record saved with the
  100-byte request body and then updated with the captured response body, its flag and
  its original size of 70000 is reported with 0 captured response bytes.
\<close>

theorem getUsage_misses_response_added_by_update:
  "(let (a, w1) = attachPage 3 5 examplePage initialWorld;
        t = the (cells (trackers w1) a);
        st0 = the (cells (storages w1) (t_storage t));
        (t1, st1, m1) = onRequest t examplePage (postRequest (replicate 100 (CHR ''a''))) 1000 st0 emptyMem;
        (t2, m2) = onResponse t1 examplePage (textResponse (replicate 70000 (CHR ''b''))) st1 m1
    in (getUsage st0 emptyMem,
        map (\<lambda>e. (bodyBytes (requestBody e), bodyBytes (responseBody e), responseBodyTruncated e))
          (storedRecords st1 m2),
        getUsage st1 m2))
   = (zeroUsage,
      [(100, 65536, Some True)],
      \<lparr>totalRequests = 1, requestBytes = 100, requestOriginalBytes = 100, requestTruncated = 0,
       responseBytes = 0, responseOriginalBytes = 0, responseTruncated = 1,
       estimatedMemoryBytes = 100\<rparr>)
   \<and> (let (a, st1, m1) = saveRequest 1000 (noData\<lparr>requestBody := Some (Val (replicate 100 (CHR ''a'')))\<rparr>)
                          newStorage emptyMem;
        (r, m2) = updateRequest ''req-1''
                    (noData\<lparr>responseBody := Some (Val (replicate 65536 (CHR ''b''))),
                            responseBodyTruncated := Some True, responseBodySize := Some 70000\<rparr>) st1 m1
    in getUsage st1 m2)
   = \<lparr>totalRequests = 1, requestBytes = 100, requestOriginalBytes = 100, requestTruncated = 0,
       responseBytes = 0, responseOriginalBytes = 70000, responseTruncated = 1,
       estimatedMemoryBytes = 100\<rparr>"
  using usage_of_captured_exchange usage_after_updateRequest by (rule conjI)

lemma getLimits_attach:
  "getLimits (snd (attachPage 3 5 examplePage (configure opts initialWorld)))
     = configureNetworkLimits opts DEFAULT_LIMITS"
  by (simp add: attach_initial getLimits_def) (simp add: configure_def initialWorld_def)

text \<open>
  Claim C1. After both limits are configured as one kilobyte, the limits in effect are
  1024 bytes each, and a tracker attached afterwards still has the ceilings 32768 and
  65536: a body of 2000 characters is stored whole, with the flag clear.
\<close>

theorem configured_limits_not_used_by_tracker:
  "(let w0 = configure \<lparr>maxRequestBodyKB = Some (Val (Finite 1)),
                        maxResponseBodyKB = Some (Val (Finite 1))\<rparr> initialWorld;
        (a, w1) = attachPage 3 5 examplePage w0;
        t = the (cells (trackers w1) a)
    in (getLimits w1, maxPostDataLength t, maxBodyLength t,
        safeTruncate (Gave (Val (replicate 2000 (CHR ''a'')))) (maxPostDataLength t),
        truncated (readResponseBody t (Gave (Val (replicate 2000 (CHR ''b'')))))))
   = (\<lparr>maxRequestBodyBytes = Finite 1024, maxResponseBodyBytes = Finite 1024\<rparr>, 32768, 65536,
      (Val (replicate 2000 (CHR ''a'')), False), False)"
proof -
  have lim: "configureNetworkLimits \<lparr>maxRequestBodyKB = Some (Val (Finite 1)),
                        maxResponseBodyKB = Some (Val (Finite 1))\<rparr> DEFAULT_LIMITS
      = \<lparr>maxRequestBodyBytes = Finite 1024, maxResponseBodyBytes = Finite 1024\<rparr>"
    by (simp add: configureNetworkLimits_def parseLimitOption_def Math_round_def timesKB_def KB_def
        DEFAULT_LIMITS_def)
  have tr: "maxPostDataLength trackerOne = 32768" "maxBodyLength trackerOne = 65536"
    by (simp_all add: trackerOne_def)
  have cut: "safeTruncate (Gave (Val (replicate 2000 (CHR ''a'')))) 32768
       = (Val (replicate 2000 (CHR ''a'')), False)"
    "truncated (readResponseBody trackerOne (Gave (Val (replicate 2000 (CHR ''b''))))) = False"
    by (simp_all add: safeTruncate_def readResponseBody_def Let_def tr)
  show ?thesis
    by (simp add: split_beta Let_def attach_initial_tracker getLimits_attach lim tr cut)
qed

subsection \<open>Attaching, detaching, disposing\<close>

lemma map_of_update_same: "map_of (AList.update k v xs) k = Some v"
  by (simp add: AList.update_conv')

lemma map_of_delete_same: "map_of (AList.delete k xs) k = None"
  by (simp add: AList.delete_conv')

lemma contextState_dispose [simp]: "contextState (dispose t w) = contextState w"
  by (simp add: dispose_def split: option.splits)

lemma contextState_newPageTracker [simp]:
  "contextState (snd (newPageTracker options pv w)) = contextState w"
  by (simp add: newPageTracker_def Let_def split_beta)

lemma attachPage_twice:
  "attachPage c p pv' (snd (attachPage c p pv w)) = (fst (attachPage c p pv w), snd (attachPage c p pv w))"
proof (cases "contextState w c")
  case None
  then show ?thesis
    by (simp add: attachPage_def ensureContextState_def Let_def split_beta map_of_update_same)
next
  case (Some state)
  show ?thesis
  proof (cases "map_of (cs_trackers state) p")
    case None
    with Some show ?thesis
      by (simp add: attachPage_def ensureContextState_def Let_def split_beta map_of_update_same)
  next
    case (Some t)
    with \<open>contextState w c = Some state\<close> show ?thesis
      by (simp add: attachPage_def ensureContextState_def Let_def split_beta)
  qed
qed

lemma detachPage_twice: "detachPage c p (detachPage c p w) = detachPage c p w"
proof (cases "contextState w c")
  case None
  then show ?thesis by (simp add: detachPage_def)
next
  case (Some state)
  show ?thesis
  proof (cases "map_of (cs_trackers state) p")
    case None
    with Some show ?thesis by (simp add: detachPage_def)
  next
    case (Some t)
    with \<open>contextState w c = Some state\<close> show ?thesis
      by (simp add: detachPage_def Let_def map_of_delete_same)
  qed
qed

lemma dispose_twice: "dispose t (dispose t w) = dispose t w"
  by (simp add: dispose_def store_def split: option.splits)

lemma detachPage_unknown_context: "contextState w c = None \<Longrightarrow> detachPage c p w = w"
  by (simp add: detachPage_def)

lemma detachPage_unknown_page:
  "contextState w c = Some state \<Longrightarrow> map_of (cs_trackers state) p = None \<Longrightarrow> detachPage c p w = w"
  by (simp add: detachPage_def)

text \<open>
  Claim C8. Attaching a page that is attached returns the same tracker and changes
  nothing; detaching a page a second time, or for an unknown context or page, changes
  nothing; disposing of a tracker a second time changes nothing.
\<close>

theorem attach_detach_dispose_idempotent:
  "attachPage c p pv' (snd (attachPage c p pv w)) = (fst (attachPage c p pv w), snd (attachPage c p pv w))
   \<and> detachPage c p (detachPage c p w) = detachPage c p w
   \<and> (contextState w c = None \<longrightarrow> detachPage c p w = w)
   \<and> (\<forall>state. contextState w c = Some state \<and> map_of (cs_trackers state) p = None
         \<longrightarrow> detachPage c p w = w)
   \<and> dispose t (dispose t w) = dispose t w"
  using attachPage_twice detachPage_twice dispose_twice detachPage_unknown_context
    detachPage_unknown_page by blast

theorem attach_detach_dispose_idempotent_witness:
  "attachPage 3 5 examplePage (snd (attachPage 3 5 examplePage initialWorld))
     = (fst (attachPage 3 5 examplePage initialWorld), snd (attachPage 3 5 examplePage initialWorld))
   \<and> contextState initialWorld 3 = None
   \<and> detachPage 3 5 initialWorld = initialWorld
   \<and> dispose 0 (dispose 0 (snd (attachPage 3 5 examplePage initialWorld)))
       = dispose 0 (snd (attachPage 3 5 examplePage initialWorld))"
proof -
  have n: "contextState initialWorld 3 = None" by (simp add: initialWorld_def)
  note a = attach_detach_dispose_idempotent[of 3 5 examplePage examplePage initialWorld 0]
  note b = attach_detach_dispose_idempotent[of 3 5 examplePage examplePage
      "snd (attachPage 3 5 examplePage initialWorld)" 0]
  from a n have "detachPage 3 5 initialWorld = initialWorld" by blast
  then show ?thesis using a b n by blast
qed

subsection \<open>The urlPattern filter\<close>

lemma starToDotStar_append: "starToDotStar (a @ b) = starToDotStar a @ starToDotStar b"
  by (simp add: starToDotStar_def)

lemma translate_eq: "starToDotStar (escapeWildcard p) = concat (map translateChar p)"
proof (induction p)
  case Nil
  show ?case by (simp add: starToDotStar_def escapeWildcard_def)
next
  case (Cons c p)
  have step: "escapeWildcard (c # p) =
      (if c \<in> set ''.+^${}()|[]'' \<or> c = backslash then [backslash, c] else [c]) @ escapeWildcard p"
    by (simp add: escapeWildcard_def)
  have one: "starToDotStar (if c \<in> set ''.+^${}()|[]'' \<or> c = backslash then [backslash, c] else [c])
      = translateChar c"
    by (auto simp: starToDotStar_def translateChar_def backslash_def)
  show ?case
    unfolding step starToDotStar_append one using Cons.IH by simp
qed

lemma translate_head:
  assumes "CHR ''?'' \<notin> set p"
  shows "quantOf (concat (map translateChar p)) = (One, concat (map translateChar p))"
    and "skipLazy (concat (map translateChar p)) = concat (map translateChar p)"
  using assms
  by (cases p; auto simp: quantOf_def skipLazy_def translateChar_def backslash_def)+

lemma parse_translate:
  assumes "CHR ''?'' \<notin> set p"
  shows "parseTerms (concat (map translateChar p)) = Parsed (map tokenOf p)"
  using assms
proof (induction p)
  case Nil
  show ?case by simp
next
  case (Cons c p)
  let ?T = "concat (map translateChar p)"
  have q: "CHR ''?'' \<notin> set p" and c: "c \<noteq> CHR ''?''" using Cons.prems by auto
  note hd = translate_head[OF q]
  have ih: "parseTerms ?T = Parsed (map tokenOf p)" using Cons.IH q by simp
  consider (esc) "c \<in> set ''.+^${}()|[]'' \<or> c = backslash"
    | (star) "c = CHR ''*''"
    | (plain) "\<not> (c \<in> set ''.+^${}()|[]'' \<or> c = backslash)" "c \<noteq> CHR ''*''"
    by blast
  then show ?case
  proof cases
    case esc
    then have tr: "translateChar c = [backslash, c]" by (simp add: translateChar_def)
    have sc: "syntaxCharacter c" using esc by (auto simp: syntaxCharacter_def)
    have nstar: "c \<noteq> CHR ''*''" using esc by (auto simp: backslash_def)
    show ?thesis
      by (simp add: tr atomOf_def sc hd ih tokenOf_def nstar)
  next
    case star
    have tr: "translateChar (CHR ''*'') = ''.*''" by (simp add: translateChar_def backslash_def)
    show ?thesis
      unfolding star by (simp add: tr atomOf_def backslash_def quantOf_def hd ih tokenOf_def)
  next
    case plain
    then have tr: "translateChar c = [c]" by (simp add: translateChar_def)
    have nsc: "\<not> syntaxCharacter c" using plain c by (auto simp: syntaxCharacter_def)
    have ndot: "c \<noteq> CHR ''.''" "c \<noteq> backslash" using plain by auto
    show ?thesis
      using plain c by (simp add: tr atomOf_def nsc ndot hd ih tokenOf_def)
  qed
qed

lemma ex_upt_Suc: "list_ex P [0..<Suc n] = (\<exists>k\<le>n. P k)"
  unfolding list_ex_iff set_upt by (auto simp: less_Suc_eq_le)

lemma star_match:
  "matchHere ((AnyChar, Star) # r) s =
    (\<exists>k\<le>length s. list_all (\<lambda>x. \<not> lineTerminator x) (take k s) \<and> matchHere r (drop k s))"
proof (induction s)
  case Nil
  show ?case by simp
next
  case (Cons x xs)
  show ?case (is "?L = ?R")
  proof
    assume ?L
    then consider "matchHere r (x # xs)"
      | "\<not> lineTerminator x" "matchHere ((AnyChar, Star) # r) xs" by auto
    then show ?R
    proof cases
      case 1
      then show ?thesis by (intro exI[of _ 0]) simp
    next
      case 2
      then obtain k where "k \<le> length xs" "list_all (\<lambda>x. \<not> lineTerminator x) (take k xs)"
        "matchHere r (drop k xs)" using Cons.IH by blast
      with 2(1) show ?thesis by (intro exI[of _ "Suc k"]) simp
    qed
  next
    assume ?R
    then obtain k where k: "k \<le> length (x # xs)"
      "list_all (\<lambda>x. \<not> lineTerminator x) (take k (x # xs))" "matchHere r (drop k (x # xs))" by blast
    show ?L
    proof (cases k)
      case 0
      with k show ?thesis by simp
    next
      case (Suc k')
      with k have "k' \<le> length xs" "list_all (\<lambda>x. \<not> lineTerminator x) (take k' xs)"
        "matchHere r (drop k' xs)" "\<not> lineTerminator x" by auto
      then show ?thesis using Cons.IH by auto
    qed
  qed
qed

lemma tokenOf_star: "tokenOf (CHR ''*'') = (AnyChar, Star)"
  by (simp add: tokenOf_def)

lemma tokenOf_other: "c \<noteq> CHR ''*'' \<Longrightarrow> tokenOf c = (Lit c, One)"
  by (simp add: tokenOf_def)

lemma matchHere_wildcardPrefix: "matchHere (map tokenOf p) s = wildcardPrefix p s"
proof (induction p arbitrary: s)
  case Nil
  show ?case by simp
next
  case (Cons c p)
  show ?case
  proof (cases "c = CHR ''*''")
    case True
    then show ?thesis
      by (simp add: tokenOf_star star_match ex_upt_Suc Cons.IH del: upt_Suc)
  next
    case False
    then show ?thesis
      by (cases s) (simp_all add: tokenOf_other Cons.IH)
  qed
qed

lemma regexTest_somewhere: "regexTest r s = (\<exists>i\<le>length s. matchHere r (drop i s))"
proof (induction s)
  case Nil
  show ?case by simp
next
  case (Cons x xs)
  show ?case (is "?L = ?R")
  proof
    assume ?L
    then consider "matchHere r (x # xs)" | "regexTest r xs" by auto
    then show ?R
    proof cases
      case 1
      then show ?thesis by (intro exI[of _ 0]) simp
    next
      case 2
      then obtain i where "i \<le> length xs" "matchHere r (drop i xs)" using Cons.IH by blast
      then show ?thesis by (intro exI[of _ "Suc i"]) simp
    qed
  next
    assume ?R
    then obtain i where i: "i \<le> length (x # xs)" "matchHere r (drop i (x # xs))" by blast
    show ?L
    proof (cases i)
      case 0
      with i show ?thesis by simp
    next
      case (Suc i')
      with i have "i' \<le> length xs" "matchHere r (drop i' xs)" by auto
      then show ?thesis using Cons.IH by auto
    qed
  qed
qed

lemma makeWildcardRegExp_found:
  assumes "CHR ''?'' \<notin> set p"
  shows "\<exists>t. makeWildcardRegExp rt p = Some t \<and> (\<forall>s. t s = wildcardFound p s)"
  by (simp add: makeWildcardRegExp_def newRegExp_def translate_eq parse_translate[OF assms]
      regexTest_somewhere matchHere_wildcardPrefix wildcardFound_def ex_upt_Suc del: upt_Suc)

lemma wildcard_png_regex:
  "makeWildcardRegExp rt ''*.png'' =
     Some (regexTest [(AnyChar, Star), (Lit (CHR ''.''), One), (Lit (CHR ''p''), One),
                      (Lit (CHR ''n''), One), (Lit (CHR ''g''), One)])"
  by (simp add: makeWildcardRegExp_def newRegExp_def escapeWildcard_def starToDotStar_def
      backslash_def atomOf_def quantOf_def skipLazy_def syntaxCharacter_def)

lemma png_js_matches:
  "regexTest [(AnyChar, Star), (Lit (CHR ''.''), One), (Lit (CHR ''p''), One),
              (Lit (CHR ''n''), One), (Lit (CHR ''g''), One)] ''http://x/a.png.js''"
  by (simp add: canonicalize_def lineTerminator_def)

lemma png_matches:
  "regexTest [(AnyChar, Star), (Lit (CHR ''.''), One), (Lit (CHR ''p''), One),
              (Lit (CHR ''n''), One), (Lit (CHR ''g''), One)] ''http://x/a.png''"
  by (simp add: canonicalize_def lineTerminator_def)

text \<open>
  Claim C4, as amended. For a pattern without \<open>?\<close>, the \<open>urlPattern\<close> filter keeps the
  records whose url contains a match of the pattern, where \<open>*\<close> stands for any run of
  characters other than line terminators and every other character for itself up to
  case. The pattern \<open>*.png\<close> is found in \<open>http://x/a.png\<close> and in
  \<open>http://x/a.png.js\<close>.
\<close>

theorem urlPattern_filter_unanchored_wildcard:
  assumes "CHR ''?'' \<notin> set p" and "p \<noteq> []"
  shows "filterUrlPattern rt (f\<lparr>f_urlPattern := Some p\<rparr>) rs
           = filter (\<lambda>e. wildcardFound p (urlText e)) rs
    \<and> wildcardFound ''*.png'' ''http://x/a.png''
    \<and> wildcardFound ''*.png'' ''http://x/a.png.js''"
proof -
  obtain t where t: "makeWildcardRegExp rt p = Some t" "\<And>s. t s = wildcardFound p s"
    using makeWildcardRegExp_found[OF assms(1), of rt] by blast
  have flt: "filterUrlPattern rt (f\<lparr>f_urlPattern := Some p\<rparr>) rs
           = filter (\<lambda>e. wildcardFound p (urlText e)) rs"
    using assms(2) t by (simp add: filterUrlPattern_def)
  have q: "CHR ''?'' \<notin> set ''*.png''" by simp
  obtain u where u: "makeWildcardRegExp rt ''*.png'' = Some u" "\<And>s. u s = wildcardFound ''*.png'' s"
    using makeWildcardRegExp_found[OF q, of rt] by blast
  from u(1) have ueq: "u = regexTest [(AnyChar, Star), (Lit (CHR ''.''), One), (Lit (CHR ''p''), One),
                      (Lit (CHR ''n''), One), (Lit (CHR ''g''), One)]"
    by (simp add: wildcard_png_regex)
  have "u ''http://x/a.png''" "u ''http://x/a.png.js''"
    unfolding ueq by (rule png_matches, rule png_js_matches)
  then show ?thesis using flt u(2) by simp
qed

theorem urlPattern_filter_unanchored_wildcard_witness:
  "CHR ''?'' \<notin> set ''*.png'' \<and> ''*.png'' \<noteq> []
   \<and> filterUrlPattern noRuntime (noFilters\<lparr>f_urlPattern := Some ''*.png''\<rparr>)
        [savedRecord 1000 pngJsRecord newStorage]
      = filter (\<lambda>e. wildcardFound ''*.png'' (urlText e)) [savedRecord 1000 pngJsRecord newStorage]
   \<and> wildcardFound ''*.png'' ''http://x/a.png.js''"
proof -
  have a: "CHR ''?'' \<notin> set ''*.png''" by simp
  have b: "''*.png'' \<noteq> []" by simp
  show ?thesis
    using urlPattern_filter_unanchored_wildcard[OF a b, of noRuntime noFilters
        "[savedRecord 1000 pngJsRecord newStorage]"] a b
    by blast
qed

text \<open>Claim C4 as stated fails: the pattern is not anchored, so \<open>*.png\<close> selects a
  record whose url is \<open>http://x/a.png.js\<close>.\<close>

theorem urlPattern_png_matches_png_js:
  "(let (a, st1, m1) = saveRequest 1000 pngJsRecord newStorage emptyMem;
        (q, m2) = queryRequests noRuntime (noFilters\<lparr>f_urlPattern := Some ''*.png''\<rparr>) st1 m1
    in map (map_option url \<circ> cells (records m2)) (results q)) = [Some (Some ''http://x/a.png.js'')]"
  by (simp add: saveRequest_unfold queryRequests_unfold newStorage_def emptyMem_def emptyHeap_def
      nextRequestId_def showNat_1 storedRecords_def List.map_filter_def selectRecords_def
      filterPageId_def filterUrlPattern_def filterMethod_def
      filterStatus_def filterResourceType_def filterSince_def filterSearch_def truthyString_def
      noFilters_def applyLimit_def sortByTimestampDesc_def split_beta
      savedRecord_def spreadRecord_def deriveByteFields_def noData_def noProps_def
      props.defs data.defs entry.defs Let_def bodyBytes_def pngJsRecord_def urlText_def
      wildcard_png_regex png_js_matches)

end
